theory Spec2Isabelle
  imports Main "HOL-Library.Word"
begin

section \<open>Bytes, errors and the \<open>struct\<close> codecs\<close>

text \<open>
  A byte is an 8-bit word and a \<open>bytes\<close> object a list of them. Python integers are
  unbounded and modelled as \<open>int\<close>; \<open>//\<close> and \<open>%\<close> round towards minus infinity,
  as \<open>div\<close> and \<open>mod\<close> on \<open>int\<close> do.
\<close>

type_synonym byte = "8 word"

text \<open>
  Every \<open>raise\<close> of the sources is a constructor. The sources raise \<open>ValueError\<close>,
  \<open>FileExistsError\<close>, \<open>RuntimeError\<close> and \<open>SystemExit\<close> with a message; the
  constructors carry the part of the message that depends on the raise site.
  \<^item> \<open>DestinationExists p\<close>: \<open>FileExistsError\<close> of \<open>write_file\<close> and \<open>write_streamed\<close>;
  \<^item> \<open>InvalidDimension name fault\<close>: the two \<open>ValueError\<close>s of \<open>require_multiple_of_8\<close>;
  \<^item> \<open>InvalidFacet\<close>, \<open>InvalidTileId\<close>, \<open>InvalidAltitude\<close>: the three \<open>ValueError\<close>s of
    \<open>make_map_and_statics\<close>;
  \<^item> \<open>InternalError\<close>: the \<open>RuntimeError\<close>s guarding the 88 and 196 byte sizes;
  \<^item> \<open>StructError\<close>: \<open>struct.error\<close>, raised by \<open>struct.pack\<close> on a value out of range
    and by \<open>unpack\<close> on a buffer of the wrong size;
  \<^item> \<open>MisalignedFileSize n\<close>: the \<open>SystemExit\<close> of \<open>autodetect_block_dims\<close>;
  \<^item> \<open>TruncatedBlock step\<close>: the two \<open>SystemExit\<close>s of \<open>read_block\<close>;
  \<^item> \<open>SeekOverflow\<close>: the \<open>ValueError\<close> of \<open>f.seek\<close> on a position that does not fit a
    64-bit file offset;
  \<^item> \<open>SeekInvalid\<close>: the \<open>OSError\<close> (\<open>EINVAL\<close>) of \<open>f.seek\<close> on a negative position or on
    one beyond what the file system accepts;
  \<^item> \<open>MathDomainError\<close>: the \<open>ValueError\<close> of \<open>math.sqrt\<close> on a negative number;
  \<^item> \<open>OverflowError\<close>: raised when an integer is too large to convert to a double.
\<close>

datatype dim_fault = NotPositive | NotMultipleOf8

datatype read_step = BlockHeader | BlockData

datatype error =
    DestinationExists string
  | InvalidDimension string dim_fault
  | InvalidFacet
  | InvalidTileId
  | InvalidAltitude
  | InternalError
  | StructError
  | MisalignedFileSize int
  | TruncatedBlock read_step
  | SeekOverflow
  | SeekInvalid
  | MathDomainError
  | OverflowError

text \<open>Sequencing of a computation that may raise.\<close>

definition bind_err :: "error + 'a \<Rightarrow> ('a \<Rightarrow> error + 'b) \<Rightarrow> error + 'b" where
  "bind_err r k = (case r of Inl e \<Rightarrow> Inl e | Inr v \<Rightarrow> k v)"

text \<open>
  \<open>le_bytes n v\<close> is the little-endian two's-complement image of \<open>v\<close> on \<open>n\<close> bytes.
  \<open>struct.pack\<close> with an unsigned code (\<open>B\<close>, \<open>H\<close>, \<open>I\<close>) accepts \<open>0 \<le> v < 2 ^ (8 * n)\<close>,
  with a signed code (\<open>b\<close>, \<open>i\<close>) it accepts \<open>- 2 ^ (8 * n - 1) \<le> v < 2 ^ (8 * n - 1)\<close>,
  and raises \<open>struct.error\<close> otherwise. The format prefix \<open><\<close> means little-endian
  without padding.
\<close>

definition le_bytes :: "nat \<Rightarrow> int \<Rightarrow> byte list" where
  "le_bytes n v = map (\<lambda>k. word_of_int (v div 256 ^ k)) [0..<n]"

definition pack_unsigned :: "nat \<Rightarrow> int \<Rightarrow> error + byte list" where
  "pack_unsigned n v = (if 0 \<le> v \<and> v < 2 ^ (8 * n) then Inr (le_bytes n v) else Inl StructError)"

definition pack_signed :: "nat \<Rightarrow> int \<Rightarrow> error + byte list" where
  "pack_signed n v =
     (if - (2 ^ (8 * n - 1)) \<le> v \<and> v < 2 ^ (8 * n - 1) then Inr (le_bytes n v)
      else Inl StructError)"

definition pack_B :: "int \<Rightarrow> error + byte list" where
  "pack_B v = pack_unsigned 1 v"

definition pack_b :: "int \<Rightarrow> error + byte list" where
  "pack_b v = pack_signed 1 v"

definition pack_H :: "int \<Rightarrow> error + byte list" where
  "pack_H v = pack_unsigned 2 v"

definition pack_I :: "int \<Rightarrow> error + byte list" where
  "pack_I v = pack_unsigned 4 v"

definition pack_i :: "int \<Rightarrow> error + byte list" where
  "pack_i v = pack_signed 4 v"

text \<open>\<open>struct.pack("<Hb", t, z)\<close>, \<open>struct.pack("<III", a, b, c)\<close> and
  \<open>struct.pack("<iii", a, b, c)\<close>: the fields one after the other.\<close>

definition pack_Hb :: "int \<Rightarrow> int \<Rightarrow> error + byte list" where
  "pack_Hb t z = bind_err (pack_H t) (\<lambda>bt. bind_err (pack_b z) (\<lambda>bz. Inr (bt @ bz)))"

definition pack_III :: "int \<Rightarrow> int \<Rightarrow> int \<Rightarrow> error + byte list" where
  "pack_III a b c =
     bind_err (pack_I a) (\<lambda>ba. bind_err (pack_I b) (\<lambda>bb. bind_err (pack_I c) (\<lambda>bc.
       Inr (ba @ bb @ bc))))"

definition pack_iii :: "int \<Rightarrow> int \<Rightarrow> int \<Rightarrow> error + byte list" where
  "pack_iii a b c =
     bind_err (pack_i a) (\<lambda>ba. bind_err (pack_i b) (\<lambda>bb. bind_err (pack_i c) (\<lambda>bc.
       Inr (ba @ bb @ bc))))"

text \<open>\<open>CELL_STRUCT = struct.Struct("<Hb")\<close>: its size and its \<open>unpack\<close>, which wants
  exactly three bytes.\<close>

definition CELL_STRUCT_size :: nat where
  "CELL_STRUCT_size = 2 + 1"

definition unpack_Hb :: "byte list \<Rightarrow> error + (int \<times> int)" where
  "unpack_Hb data =
     (case data of
        [b0, b1, b2] \<Rightarrow> Inr (uint b0 + 256 * uint b1, sint b2)
      | _ \<Rightarrow> Inl StructError)"

text \<open>\<open>bytes * n\<close>: \<open>n\<close> copies, none when \<open>n\<close> is negative.\<close>

definition bytes_times :: "byte list \<Rightarrow> int \<Rightarrow> byte list" where
  "bytes_times b n = concat (replicate (nat n) b)"

section \<open>Map2TXT.py: the block address resolver and the reader\<close>

definition BLOCK_SIZE_BYTES :: int where
  "BLOCK_SIZE_BYTES = 4 + 64 * 3"

text \<open>\<open>KNOWN_BLOCK_DIMS\<close>: a dict, iterated in the order of its declaration.\<close>

definition KNOWN_BLOCK_DIMS :: "((int \<times> int) \<times> string) list" where
  "KNOWN_BLOCK_DIMS =
     [((768, 512), ''Classic rectangular (map0/map1 style)''),
      ((896, 512), ''Large rectangular (variant)''),
      ((288, 200), ''Medium rectangular (map2-like)''),
      ((256, 256), ''Square (map3-like)''),
      ((181, 181), ''Small square (map4-like)''),
      ((512, 512), ''Square test/dev'')]"

text \<open>
  \<open>int(math.sqrt(n))\<close> works in double precision. \<open>math.sqrt\<close> converts its integer
  argument to the nearest double (ties to even), which raises \<open>OverflowError\<close> when the
  result does not fit; it raises on a negative argument; the root it returns is the
  double nearest to the exact root; \<open>int\<close> truncates it. All doubles that occur are
  non-negative and at least 1 when not 0, so a double is held as the integer or, for the
  root, as a 53-bit significand \<open>m\<close> and a power of two.
  \<^item> \<open>bit_length\<close> is \<open>int.bit_length\<close> and \<open>isqrt\<close> the integer square root, by binary
    digits.
  \<^item> \<open>round_half_even n s\<close> is \<open>n / 2 ^ s\<close> rounded to the nearest integer, ties to even.
  \<^item> \<open>float_of_nat n\<close> is the value of \<open>float(n)\<close>: \<open>n\<close> rounded to 53 significant bits,
    always an integer.
  \<^item> \<open>sqrt_trunc v\<close> is \<open>int(math.sqrt(v))\<close> for a double \<open>v\<close> with an integer value. With
    \<open>2 ^ e \<le> sqrt v < 2 ^ (e + 1)\<close> the doubles around the root are the multiples of
    \<open>2 ^ (e - 52)\<close>; \<open>q\<close> is the root in that unit rounded down and \<open>m\<close> the root rounded
    to nearest.
\<close>

fun bit_length :: "nat \<Rightarrow> nat" where
  "bit_length n = (if n = 0 then 0 else Suc (bit_length (n div 2)))"

declare bit_length.simps [simp del]

definition isqrt_step :: "nat \<Rightarrow> nat \<Rightarrow> nat" where
  "isqrt_step n r = (if (r + 1) * (r + 1) \<le> n then r + 1 else r)"

fun isqrt :: "nat \<Rightarrow> nat" where
  "isqrt n = (if n < 2 then n else isqrt_step n (2 * isqrt (n div 4)))"

declare isqrt.simps [simp del]

definition round_half_even :: "nat \<Rightarrow> nat \<Rightarrow> nat" where
  "round_half_even n s =
     (let q = n div 2 ^ s; r = n mod 2 ^ s
      in if 2 ^ s < 2 * r \<or> (2 * r = 2 ^ s \<and> odd q) then q + 1 else q)"

definition float_of_nat :: "nat \<Rightarrow> error + nat" where
  "float_of_nat n =
     (let s = bit_length n - 53; v = round_half_even n s * 2 ^ s
      in if 2 ^ 1024 \<le> v then Inl OverflowError else Inr v)"

definition sqrt_trunc :: "nat \<Rightarrow> nat" where
  "sqrt_trunc v =
     (if v = 0 then 0
      else
        let e = (bit_length v - 1) div 2 in
        if e \<le> 52 then
          (let k = 52 - e; w = v * 4 ^ k; q = isqrt w;
               m = (if q * q + q < w then q + 1 else q)
           in m div 2 ^ k)
        else
          (let j = e - 52; q = isqrt v div 2 ^ j; mid = (2 * q + 1) * (2 * q + 1) * 4 ^ (j - 1);
               m = (if mid < v \<or> (mid = v \<and> odd q) then q + 1 else q)
           in m * 2 ^ j))"

definition int_math_sqrt :: "int \<Rightarrow> error + int" where
  "int_math_sqrt n =
     (case float_of_nat (nat \<bar>n\<bar>) of
        Inl e \<Rightarrow> Inl e
      | Inr v \<Rightarrow> if n < 0 then Inl MathDomainError else Inr (int (sqrt_trunc v)))"

text \<open>The \<open>for\<close> loop of \<open>autodetect_block_dims\<close> over the items of the table: the first
  entry whose product is \<open>total_blocks\<close> is returned, \<open>None\<close> when the loop falls through.\<close>

fun scan_known :: "((int \<times> int) \<times> string) list \<Rightarrow> int \<Rightarrow> (int \<times> int \<times> string \<times> int) option" where
  "scan_known [] total_blocks = None"
| "scan_known (((ax, ay), label) # rest) total_blocks =
     (if ax * ay = total_blocks then Some (ax, ay, label, total_blocks)
      else scan_known rest total_blocks)"

definition autodetect_block_dims :: "int \<Rightarrow> error + (int \<times> int \<times> string \<times> int)" where
  "autodetect_block_dims file_size =
     (if file_size mod BLOCK_SIZE_BYTES \<noteq> 0 then Inl (MisalignedFileSize file_size)
      else
        let total_blocks = file_size div BLOCK_SIZE_BYTES in
        case scan_known KNOWN_BLOCK_DIMS total_blocks of
          Some r \<Rightarrow> Inr r
        | None \<Rightarrow>
            bind_err (int_math_sqrt total_blocks) (\<lambda>s1.
            bind_err (int_math_sqrt total_blocks) (\<lambda>s2.
              Inr (s1, s2, ''Heuristic'', total_blocks))))"

definition block_offset :: "int \<Rightarrow> int \<Rightarrow> int \<Rightarrow> int" where
  "block_offset bx by blocks_down = ((bx * blocks_down) + by) * BLOCK_SIZE_BYTES"

text \<open>
  The byte source \<open>f\<close> of \<open>read_block\<close>: a file opened for reading, that is its content, its
  position, and the largest offset the file system holding it accepts (\<open>max_offset\<close>, which
  depends on the file system). \<open>seek\<close> raises \<open>ValueError\<close> on a position outside the 64-bit
  signed range and \<open>OSError\<close> on a negative one or one beyond \<open>max_offset\<close>; \<open>read n\<close>
  returns the at most \<open>n\<close> bytes from the position on (none beyond the end) and advances by
  what it returned.
\<close>

record source =
  content :: "byte list"
  pos :: nat
  max_offset :: nat

definition seek :: "int \<Rightarrow> source \<Rightarrow> (error + unit) \<times> source" where
  "seek off f =
     (if off < - (2 ^ 63) \<or> 2 ^ 63 \<le> off then (Inl SeekOverflow, f)
      else if off < 0 \<or> int (max_offset f) < off then (Inl SeekInvalid, f)
      else (Inr (), f\<lparr>pos := nat off\<rparr>))"

definition read :: "nat \<Rightarrow> source \<Rightarrow> byte list \<times> source" where
  "read n f =
     (let data = take n (drop (pos f) (content f))
      in (data, f\<lparr>pos := pos f + length data\<rparr>))"

text \<open>The inner loop \<open>for x in range(8)\<close> of \<open>read_block\<close>, with \<open>n\<close> cells still to read
  and \<open>row\<close> the cells appended so far.\<close>

fun read_row :: "nat \<Rightarrow> (int \<times> int) list \<Rightarrow> source \<Rightarrow> (error + (int \<times> int) list) \<times> source" where
  "read_row 0 row f = (Inr row, f)"
| "read_row (Suc n) row f =
     (let (data, f1) = read CELL_STRUCT_size f in
      if length data \<noteq> CELL_STRUCT_size then (Inl (TruncatedBlock BlockData), f1)
      else case unpack_Hb data of
             Inl e \<Rightarrow> (Inl e, f1)
           | Inr (tile, alt) \<Rightarrow> read_row n (row @ [(tile, alt)]) f1)"

text \<open>The outer loop \<open>for y in range(8)\<close>, with \<open>n\<close> rows still to read.\<close>

fun read_rows :: "nat \<Rightarrow> (int \<times> int) list list \<Rightarrow> source \<Rightarrow>
    (error + (int \<times> int) list list) \<times> source" where
  "read_rows 0 cells f = (Inr cells, f)"
| "read_rows (Suc n) cells f =
     (case read_row 8 [] f of
        (Inl e, f1) \<Rightarrow> (Inl e, f1)
      | (Inr row, f1) \<Rightarrow> read_rows n (cells @ [row]) f1)"

definition read_block :: "source \<Rightarrow> int \<Rightarrow> int \<Rightarrow> int \<Rightarrow>
    (error + (byte list \<times> (int \<times> int) list list)) \<times> source" where
  "read_block f bx by blocks_down =
     (case seek (block_offset bx by blocks_down) f of
        (Inl e, f0) \<Rightarrow> (Inl e, f0)
      | (Inr _, f0) \<Rightarrow>
          (let (header, f1) = read 4 f0 in
           if length header \<noteq> 4 then (Inl (TruncatedBlock BlockHeader), f1)
           else (case read_rows 8 [] f1 of
                   (Inl e, f2) \<Rightarrow> (Inl e, f2)
                 | (Inr cells, f2) \<Rightarrow> (Inr (header, cells), f2))))"

text \<open>
  What a complete block decodes to: \<open>cell_at c p\<close> is the cell held by the three bytes of
  \<open>c\<close> from position \<open>p\<close>, \<open>row_at c p\<close> the eight cells from \<open>p\<close>, and \<open>block_at c off\<close>
  the four header bytes at \<open>off\<close> with the 64 cells behind them, row \<open>y\<close>, column \<open>x\<close> at
  cell number \<open>8 * y + x\<close>.
\<close>

definition cell_at :: "byte list \<Rightarrow> nat \<Rightarrow> int \<times> int" where
  "cell_at c p = (uint (c ! p) + 256 * uint (c ! (p + 1)), sint (c ! (p + 2)))"

definition row_at :: "byte list \<Rightarrow> nat \<Rightarrow> (int \<times> int) list" where
  "row_at c p = map (\<lambda>x. cell_at c (p + 3 * x)) [0..<8]"

definition block_at :: "byte list \<Rightarrow> nat \<Rightarrow> byte list \<times> (int \<times> int) list list" where
  "block_at c off =
     (take 4 (drop off c),
      map (\<lambda>y. map (\<lambda>x. cell_at c (off + 4 + 3 * (8 * y + x))) [0..<8]) [0..<8])"

section \<open>Files and streamed writers\<close>

text \<open>
  The output directory is a map from file names to contents; \<open>out_dir / name\<close> is the
  name. Creating the directory (\<open>mkdir\<close>) has no effect on the files and is left out.
  A file opened with \<open>"wb"\<close> starts empty and every \<open>f.write\<close> appends: the state of a
  writer is the bytes written so far. An exception inside the \<open>with\<close> block leaves the file
  with what was written before it.
\<close>

type_synonym files = "string \<rightharpoonup> byte list"

type_synonym writer = "byte list \<Rightarrow> (error + unit) \<times> byte list"

text \<open>Statement sequencing on a state: the second statement runs only if the first did
  not raise.\<close>

definition and_then :: "(error + unit) \<times> 's \<Rightarrow> ('s \<Rightarrow> (error + 'a) \<times> 's) \<Rightarrow> (error + 'a) \<times> 's" where
  "and_then r k = (case r of (Inl e, s) \<Rightarrow> (Inl e, s) | (Inr _, s) \<Rightarrow> k s)"

definition f_write :: "byte list \<Rightarrow> writer" where
  "f_write b out = (Inr (), out @ b)"

text \<open>\<open>f.write(struct.pack(...))\<close>: the packing may raise before anything is written.\<close>

definition write_packed :: "error + byte list \<Rightarrow> writer" where
  "write_packed p out = (case p of Inl e \<Rightarrow> (Inl e, out) | Inr b \<Rightarrow> f_write b out)"

text \<open>A block of statements, and \<open>for _ in range(n)\<close> around a body.\<close>

fun seq_w :: "writer list \<Rightarrow> writer" where
  "seq_w [] out = (Inr (), out)"
| "seq_w (w # ws) out = and_then (w out) (seq_w ws)"

fun for_range :: "nat \<Rightarrow> writer \<Rightarrow> writer" where
  "for_range 0 body out = (Inr (), out)"
| "for_range (Suc n) body out = and_then (body out) (for_range n body)"

text \<open>A writer that cannot raise and appends the bytes \<open>b\<close> to what was written.\<close>

definition appends :: "writer \<Rightarrow> byte list \<Rightarrow> bool" where
  "appends w b \<longleftrightarrow> (\<forall>out. w out = (Inr (), out @ b))"

section \<open>AxonometricLabv0.py: the writer pipeline\<close>

definition write_file :: "string \<Rightarrow> byte list \<Rightarrow> bool \<Rightarrow> files \<Rightarrow> (error + unit) \<times> files" where
  "write_file path data force fs =
     (if fs path \<noteq> None \<and> \<not> force then (Inl (DestinationExists path), fs)
      else (Inr (), fs(path \<mapsto> data)))"

definition write_streamed :: "string \<Rightarrow> writer \<Rightarrow> bool \<Rightarrow> files \<Rightarrow> (error + unit) \<times> files" where
  "write_streamed path writer_fn force fs =
     (if fs path \<noteq> None \<and> \<not> force then (Inl (DestinationExists path), fs)
      else let (r, out) = writer_fn [] in (r, fs(path \<mapsto> out)))"

definition require_multiple_of_8 :: "int \<Rightarrow> string \<Rightarrow> error + unit" where
  "require_multiple_of_8 v name =
     (if v \<le> 0 then Inl (InvalidDimension name NotPositive)
      else if v mod 8 \<noteq> 0 then Inl (InvalidDimension name NotMultipleOf8)
      else Inr ())"

definition make_art_mul :: "bool \<Rightarrow> files \<Rightarrow> (error + unit) \<times> files" where
  "make_art_mul force fs = write_file ''art.mul'' [] force fs"

text \<open>A parameter with a default value is an option: \<open>None\<close> when the caller leaves it
  out.\<close>

definition make_artidx_mul :: "bool \<Rightarrow> int option \<Rightarrow> files \<Rightarrow> (error + unit) \<times> files" where
  "make_artidx_mul force idx_entries_arg fs =
     (let idx_entries = (case idx_entries_arg of None \<Rightarrow> 0x14000 | Some n \<Rightarrow> n);
          NO_ART = 0xFFFFFFFF
      in case pack_III NO_ART 0 0 of
           Inl e \<Rightarrow> (Inl e, fs)
         | Inr record \<Rightarrow> write_file ''artidx.mul'' (bytes_times record idx_entries) force fs)"

definition LAND_GROUPS :: int where
  "LAND_GROUPS = 512"

definition STATIC_GROUPS :: int where
  "STATIC_GROUPS = 2048"

definition NAME20_ZERO :: "byte list" where
  "NAME20_ZERO = bytes_times [0] 20"

text \<open>The inner function \<open>writer\<close> of \<open>make_tiledata_mul\<close>.\<close>

definition tiledata_writer :: writer where
  "tiledata_writer =
     seq_w
      [for_range (nat LAND_GROUPS)
         (seq_w
           [write_packed (pack_I 0),
            for_range 32
              (seq_w [write_packed (pack_I 0), write_packed (pack_H 0), f_write NAME20_ZERO])]),
       for_range (nat STATIC_GROUPS)
         (seq_w
           [write_packed (pack_I 0),
            for_range 32
              (seq_w
                [write_packed (pack_I 0), write_packed (pack_B 0), write_packed (pack_B 0),
                 write_packed (pack_H 0), write_packed (pack_B 0), write_packed (pack_B 0),
                 write_packed (pack_H 0), write_packed (pack_B 0), write_packed (pack_B 0),
                 write_packed (pack_H 0), write_packed (pack_b 0), f_write NAME20_ZERO])])]"

definition make_tiledata_mul :: "bool \<Rightarrow> files \<Rightarrow> (error + unit) \<times> files" where
  "make_tiledata_mul force fs = write_streamed ''tiledata.mul'' tiledata_writer force fs"

text \<open>The inner function \<open>writer\<close> of \<open>make_hues_mul\<close>; the entry is built, and its size
  checked, after the file has been opened.\<close>

definition hues_writer :: "int \<Rightarrow> writer" where
  "hues_writer hue_groups out =
     (case bind_err (pack_H 0) (\<lambda>a. bind_err (pack_H 0) (\<lambda>b.
             Inr (bytes_times [0] (32 * 2) @ a @ b @ bytes_times [0] 20))) of
        Inl e \<Rightarrow> (Inl e, out)
      | Inr hue_entry \<Rightarrow>
          if length hue_entry \<noteq> 88 then (Inl InternalError, out)
          else for_range (nat hue_groups)
                 (seq_w [write_packed (pack_I 0), for_range 8 (f_write hue_entry)]) out)"

definition make_hues_mul :: "bool \<Rightarrow> int option \<Rightarrow> files \<Rightarrow> (error + unit) \<times> files" where
  "make_hues_mul force hue_groups_arg fs =
     (let hue_groups = (case hue_groups_arg of None \<Rightarrow> 375 | Some n \<Rightarrow> n)
      in write_streamed ''hues.mul'' (hues_writer hue_groups) force fs)"

definition make_radarcol_mul :: "bool \<Rightarrow> int option \<Rightarrow> files \<Rightarrow> (error + unit) \<times> files" where
  "make_radarcol_mul force entries_arg fs =
     (let entries = (case entries_arg of None \<Rightarrow> 0x10000 | Some n \<Rightarrow> n)
      in write_file ''radarcol.mul'' (bytes_times [0, 0] entries) force fs)"

text \<open>\<open>f"{facet}"\<close>: the decimal digits of an integer, with a minus sign when negative.\<close>

fun str_nat :: "nat \<Rightarrow> string" where
  "str_nat n =
     (if n < 10 then [''0123456789'' ! n]
      else str_nat (n div 10) @ [''0123456789'' ! (n mod 10)])"

declare str_nat.simps [simp del]

definition str_int :: "int \<Rightarrow> string" where
  "str_int i = (if i < 0 then ''-'' @ str_nat (nat (- i)) else str_nat (nat i))"

definition map_path :: "int \<Rightarrow> string" where
  "map_path facet = ''map'' @ str_int facet @ ''.mul''"

definition staidx_path :: "int \<Rightarrow> string" where
  "staidx_path facet = ''staidx'' @ str_int facet @ ''.mul''"

definition statics_path :: "int \<Rightarrow> string" where
  "statics_path facet = ''statics'' @ str_int facet @ ''.mul''"

text \<open>The inner functions \<open>write_map\<close> and \<open>write_staidx\<close> of \<open>make_map_and_statics\<close>.\<close>

definition write_map :: "int \<Rightarrow> byte list \<Rightarrow> writer" where
  "write_map block_count one_block = for_range (nat block_count) (f_write one_block)"

definition write_staidx :: "int \<Rightarrow> byte list \<Rightarrow> writer" where
  "write_staidx block_count empty_staidx = f_write (bytes_times empty_staidx block_count)"

definition make_map_and_statics ::
    "bool \<Rightarrow> int \<Rightarrow> int \<Rightarrow> int \<Rightarrow> int \<Rightarrow> int \<Rightarrow> files \<Rightarrow> (error + unit) \<times> files" where
  "make_map_and_statics force facet width height default_land default_z fs =
     (case require_multiple_of_8 width ''map-width'' of
        Inl e \<Rightarrow> (Inl e, fs)
      | Inr _ \<Rightarrow>
     (case require_multiple_of_8 height ''map-height'' of
        Inl e \<Rightarrow> (Inl e, fs)
      | Inr _ \<Rightarrow>
      if facet < 0 \<or> facet > 255 then (Inl InvalidFacet, fs)
      else if default_land < 0 \<or> default_land > 0x3FFF then (Inl InvalidTileId, fs)
      else if default_z < - 128 \<or> default_z > 127 then (Inl InvalidAltitude, fs)
      else
        let blocks_x = width div 8;
            blocks_y = height div 8;
            block_count = blocks_x * blocks_y
        in
        (case pack_Hb default_land default_z of
           Inl e \<Rightarrow> (Inl e, fs)
         | Inr tile_bytes \<Rightarrow>
        (case pack_i 0 of
           Inl e \<Rightarrow> (Inl e, fs)
         | Inr block_header \<Rightarrow>
           let one_block = block_header @ bytes_times tile_bytes 64 in
           if length one_block \<noteq> 196 then (Inl InternalError, fs)
           else
             (case pack_iii (- 1) 0 0 of
                Inl e \<Rightarrow> (Inl e, fs)
              | Inr empty_staidx \<Rightarrow>
                  and_then (write_streamed (map_path facet) (write_map block_count one_block) force fs)
                    (\<lambda>fs1.
                  and_then (write_streamed (staidx_path facet)
                              (write_staidx block_count empty_staidx) force fs1)
                    (\<lambda>fs2.
                  write_file (statics_path facet) [] force fs2)))))))"

text \<open>The parsed command line, a field for each option (\<open>--force\<close>, \<open>--facet\<close>,
  \<open>--map-width\<close> and so on), and the defaults \<open>argparse\<close> gives them.\<close>

record args =
  opt_force :: bool
  opt_facet :: int
  opt_map_width :: int
  opt_map_height :: int
  opt_default_land :: int
  opt_default_z :: int
  opt_artidx_entries :: int
  opt_hue_groups :: int

definition argparse_defaults :: args where
  "argparse_defaults =
     \<lparr>opt_force = False, opt_facet = 0, opt_map_width = 256, opt_map_height = 256,
      opt_default_land = 0, opt_default_z = 0, opt_artidx_entries = 0x14000,
      opt_hue_groups = 375\<rparr>"

text \<open>\<open>main\<close>: the eight artifacts in the order of the source. The summary it prints
  afterwards reads sizes only and is left out; it returns 0.\<close>

definition main :: "args \<Rightarrow> files \<Rightarrow> (error + int) \<times> files" where
  "main a fs =
     and_then (make_art_mul (opt_force a) fs) (\<lambda>fs.
     and_then (make_artidx_mul (opt_force a) (Some (opt_artidx_entries a)) fs) (\<lambda>fs.
     and_then (make_tiledata_mul (opt_force a) fs) (\<lambda>fs.
     and_then (make_hues_mul (opt_force a) (Some (opt_hue_groups a)) fs) (\<lambda>fs.
     and_then (make_radarcol_mul (opt_force a) None fs) (\<lambda>fs.
     and_then (make_map_and_statics (opt_force a) (opt_facet a) (opt_map_width a)
                 (opt_map_height a) (opt_default_land a) (opt_default_z a) fs) (\<lambda>fs.
     (Inr 0, fs)))))))"

section \<open>blankTileReg.py, blank_art_bin.py and emptyX.py: the stand-alone writers\<close>

definition write_land_group :: writer where
  "write_land_group =
     seq_w
      [write_packed (pack_I 0),
       for_range 32
         (seq_w [write_packed (pack_I 0), write_packed (pack_H 0), f_write NAME20_ZERO])]"

definition write_static_group :: writer where
  "write_static_group =
     seq_w
      [write_packed (pack_I 0),
       for_range 32
         (seq_w
           [write_packed (pack_I 0), write_packed (pack_B 0), write_packed (pack_B 0),
            write_packed (pack_H 0), write_packed (pack_B 0), write_packed (pack_B 0),
            write_packed (pack_H 0), write_packed (pack_B 0), write_packed (pack_B 0),
            write_packed (pack_H 0), write_packed (pack_b 0), f_write NAME20_ZERO])]"

text \<open>The script body of blankTileReg.py: it opens \<open>tiledata.mul\<close> without looking for
  an existing file.\<close>

definition blankTileReg_main :: "files \<Rightarrow> (error + unit) \<times> files" where
  "blankTileReg_main fs =
     (let (r, out) =
            seq_w [for_range (nat LAND_GROUPS) write_land_group,
                   for_range (nat STATIC_GROUPS) write_static_group] []
      in (r, fs(''tiledata.mul'' \<mapsto> out)))"

text \<open>\<open>make_art_stubs\<close> of blank_art_bin.py; its default count is \<open>0x10000\<close>. The first
  \<open>open\<close> creates the empty art file, the second streams the index records.\<close>

definition make_art_stubs ::
    "string option \<Rightarrow> string option \<Rightarrow> int option \<Rightarrow> files \<Rightarrow> (error + unit) \<times> files" where
  "make_art_stubs art_path_arg artidx_path_arg idx_entries_arg fs =
     (let art_path = (case art_path_arg of None \<Rightarrow> ''art.mul'' | Some p \<Rightarrow> p);
          artidx_path = (case artidx_path_arg of None \<Rightarrow> ''artidx.mul'' | Some p \<Rightarrow> p);
          idx_entries = (case idx_entries_arg of None \<Rightarrow> 0x10000 | Some n \<Rightarrow> n);
          fs1 = fs(art_path \<mapsto> []);
          NO_ART = 0xFFFFFFFF;
          (r, out) = for_range (nat idx_entries) (write_packed (pack_III NO_ART 0 0)) []
      in (r, fs1(artidx_path \<mapsto> out)))"

text \<open>\<open>main\<close> of emptyX.py, from the two numbers \<open>prompt_int\<close> returned; \<open>prompt_int\<close>
  asks again until the number is positive.\<close>

definition emptyX_main :: "int \<Rightarrow> int \<Rightarrow> files \<Rightarrow> (error + unit) \<times> files" where
  "emptyX_main blocks_x blocks_y fs =
     (let entries = blocks_x * blocks_y in
      case pack_iii (- 1) 0 0 of
        Inl e \<Rightarrow> (Inl e, fs(''staidx0.mul'' \<mapsto> []))
      | Inr empty_entry \<Rightarrow>
          (Inr (), (fs(''staidx0.mul'' \<mapsto> bytes_times empty_entry entries))
                     (''statics0.mul'' \<mapsto> [])))"

section \<open>The contents the writers are expected to produce\<close>

text \<open>The tiledata container: 512 land groups of \<open>4 + 32 * 26 = 836\<close> zero bytes, then 2048
  static groups of \<open>4 + 32 * 37 = 1188\<close> zero bytes.\<close>

definition tiledata_bytes :: "byte list" where
  "tiledata_bytes =
     concat (replicate 512 (replicate 836 0)) @ concat (replicate 2048 (replicate 1188 0))"

text \<open>
  The three bytes of a map cell (\<open>tile_bytes\<close>), the block of a uniform map (\<open>one_block\<close>)
  and the map of \<open>n\<close> such blocks; the 12-byte sentinel of the art index
  (\<open>0xFFFFFFFF, 0, 0\<close>), which is also that of the static index (\<open>-1, 0, 0\<close>), and an index
  of \<open>n\<close> sentinels.
\<close>

definition tile_bytes :: "int \<Rightarrow> int \<Rightarrow> byte list" where
  "tile_bytes t z = [word_of_int t, word_of_int (t div 256), word_of_int z]"

definition one_block :: "int \<Rightarrow> int \<Rightarrow> byte list" where
  "one_block t z = replicate 4 0 @ concat (replicate 64 (tile_bytes t z))"

definition map_bytes :: "nat \<Rightarrow> int \<Rightarrow> int \<Rightarrow> byte list" where
  "map_bytes n t z = concat (replicate n (one_block t z))"

definition sentinel_record :: "byte list" where
  "sentinel_record = [0xFF, 0xFF, 0xFF, 0xFF, 0, 0, 0, 0, 0, 0, 0, 0]"

definition index_bytes :: "nat \<Rightarrow> byte list" where
  "index_bytes n = concat (replicate n sentinel_record)"

text \<open>The hues container of \<open>g\<close> groups, a group being \<open>4 + 8 * 88 = 708\<close> zero bytes, and
  the radar-colour table of \<open>0x10000\<close> two-byte zero entries.\<close>

definition hues_bytes :: "int \<Rightarrow> byte list" where
  "hues_bytes g = concat (replicate (nat g) (replicate (4 + 8 * 88) 0))"

definition radarcol_bytes :: "byte list" where
  "radarcol_bytes = replicate (2 * 0x10000) 0"

text \<open>The five parameter checks of \<open>make_map_and_statics\<close> taken together, and the errors
  they raise.\<close>

definition map_params_ok :: "int \<Rightarrow> int \<Rightarrow> int \<Rightarrow> int \<Rightarrow> int \<Rightarrow> bool" where
  "map_params_ok w h facet t z \<longleftrightarrow>
     0 < w \<and> w mod 8 = 0 \<and> 0 < h \<and> h mod 8 = 0 \<and> 0 \<le> facet \<and> facet \<le> 255
     \<and> 0 \<le> t \<and> t \<le> 0x3FFF \<and> - 128 \<le> z \<and> z \<le> 127"

fun is_validation_error :: "error \<Rightarrow> bool" where
  "is_validation_error (InvalidDimension name fault) = True"
| "is_validation_error InvalidFacet = True"
| "is_validation_error InvalidTileId = True"
| "is_validation_error InvalidAltitude = True"
| "is_validation_error e = False"

section \<open>The reader, step by step\<close>

text \<open>Three bytes from a position, when the content has them.\<close>


lemma take3_drop:
  assumes "p + 3 \<le> length c"
  shows "take 3 (drop p c) = [c ! p, c ! (p + 1), c ! (p + 2)]"
proof (rule nth_equalityI)
  show "length (take 3 (drop p c)) = length [c ! p, c ! (p + 1), c ! (p + 2)]"
    using assms by simp
next
  fix i assume "i < length (take 3 (drop p c))"
  then have "i < 3" by simp
  then have "i = 0 \<or> i = 1 \<or> i = 2" by arith
  then show "take 3 (drop p c) ! i = [c ! p, c ! (p + 1), c ! (p + 2)] ! i"
    using assms by auto
qed

lemma read_cell:
  "read 3 f =
     (take 3 (drop (pos f) (content f)), f\<lparr>pos := pos f + min 3 (length (content f) - pos f)\<rparr>)"
  by (simp add: read_def Let_def min_def)

lemma read_cell_full:
  "pos f + 3 \<le> length (content f) \<Longrightarrow>
   read 3 f =
     ([content f ! pos f, content f ! (pos f + 1), content f ! (pos f + 2)], f\<lparr>pos := pos f + 3\<rparr>)"
  by (simp add: read_cell take3_drop min_def)

lemma read_row_step:
  "pos f + 3 \<le> length (content f) \<Longrightarrow>
   read_row (Suc n) row f = read_row n (row @ [cell_at (content f) (pos f)]) (f\<lparr>pos := pos f + 3\<rparr>)"
  by (simp add: CELL_STRUCT_size_def read_cell_full unpack_Hb_def cell_at_def)

lemma read_row_stop:
  "length (content f) < pos f + 3 \<Longrightarrow>
   fst (read_row (Suc n) row f) = Inl (TruncatedBlock BlockData)"
proof -
  assume "length (content f) < pos f + 3"
  then have "length (take 3 (drop (pos f) (content f))) \<noteq> 3" by simp
  then show ?thesis by (simp add: CELL_STRUCT_size_def read_cell del: length_take length_drop)
qed

lemma read_row_ok:
  "pos f + 3 * n \<le> length (content f) \<Longrightarrow>
   read_row n row f =
     (Inr (row @ map (\<lambda>i. cell_at (content f) (pos f + 3 * i)) [0..<n]), f\<lparr>pos := pos f + 3 * n\<rparr>)"
proof (induction n arbitrary: row f)
  case 0
  then show ?case by simp
next
  case (Suc n)
  let ?f1 = "f\<lparr>pos := pos f + 3\<rparr>"
  have s: "read_row (Suc n) row f = read_row n (row @ [cell_at (content f) (pos f)]) ?f1"
    using Suc.prems by (intro read_row_step) simp
  have ih: "read_row n (row @ [cell_at (content f) (pos f)]) ?f1 =
     (Inr ((row @ [cell_at (content f) (pos f)]) @ map (\<lambda>i. cell_at (content ?f1) (pos ?f1 + 3 * i)) [0..<n]),
      ?f1\<lparr>pos := pos ?f1 + 3 * n\<rparr>)"
    using Suc.prems by (intro Suc.IH) simp
  have m: "map (\<lambda>i. cell_at (content f) (pos f + 3 * i)) [0..<Suc n] =
      cell_at (content f) (pos f) # map (\<lambda>i. cell_at (content f) (pos f + 3 + 3 * i)) [0..<n]"
    unfolding map_upt_Suc by (simp add: add.assoc)
  show ?case
    unfolding s ih m by (simp add: add.assoc)
qed

lemma read_row_short:
  "length (content f) < pos f + 3 * n \<Longrightarrow> pos f \<le> length (content f) \<Longrightarrow>
   fst (read_row n row f) = Inl (TruncatedBlock BlockData)"
proof (induction n arbitrary: row f)
  case 0
  then show ?case by simp
next
  case (Suc n)
  show ?case
  proof (cases "pos f + 3 \<le> length (content f)")
    case True
    let ?f1 = "f\<lparr>pos := pos f + 3\<rparr>"
    have s: "read_row (Suc n) row f = read_row n (row @ [cell_at (content f) (pos f)]) ?f1"
      using True by (rule read_row_step)
    have "fst (read_row n (row @ [cell_at (content f) (pos f)]) ?f1) = Inl (TruncatedBlock BlockData)"
      using Suc.prems True by (intro Suc.IH) simp_all
    then show ?thesis unfolding s .
  next
    case False
    then have "length (content f) < pos f + 3" by simp
    then show ?thesis by (rule read_row_stop)
  qed
qed


lemma read_rows_step:
  assumes "pos f + 24 \<le> length (content f)"
  shows "read_rows (Suc n) cells f =
           read_rows n (cells @ [row_at (content f) (pos f)]) (f\<lparr>pos := pos f + 24\<rparr>)"
proof -
  have "read_row 8 [] f = (Inr (row_at (content f) (pos f)), f\<lparr>pos := pos f + 24\<rparr>)"
    using assms read_row_ok [of f 8 "[]"] by (simp add: row_at_def)
  then show ?thesis by simp
qed

lemma read_rows_stop:
  assumes "length (content f) < pos f + 24" and "pos f \<le> length (content f)"
  shows "fst (read_rows (Suc n) cells f) = Inl (TruncatedBlock BlockData)"
proof -
  have "fst (read_row 8 [] f) = Inl (TruncatedBlock BlockData)"
    using assms read_row_short [of f 8 "[]"] by simp
  then show ?thesis by (cases "read_row 8 [] f") simp
qed

lemma read_rows_ok:
  "pos f + 24 * n \<le> length (content f) \<Longrightarrow>
   read_rows n cells f =
     (Inr (cells @ map (\<lambda>y. row_at (content f) (pos f + 24 * y)) [0..<n]),
      f\<lparr>pos := pos f + 24 * n\<rparr>)"
proof (induction n arbitrary: cells f)
  case 0
  then show ?case by simp
next
  case (Suc n)
  let ?f1 = "f\<lparr>pos := pos f + 24\<rparr>"
  have s: "read_rows (Suc n) cells f = read_rows n (cells @ [row_at (content f) (pos f)]) ?f1"
    using Suc.prems by (intro read_rows_step) simp
  have ih: "read_rows n (cells @ [row_at (content f) (pos f)]) ?f1 =
     (Inr ((cells @ [row_at (content f) (pos f)]) @
           map (\<lambda>y. row_at (content ?f1) (pos ?f1 + 24 * y)) [0..<n]),
      ?f1\<lparr>pos := pos ?f1 + 24 * n\<rparr>)"
    using Suc.prems by (intro Suc.IH) simp
  have m: "map (\<lambda>y. row_at (content f) (pos f + 24 * y)) [0..<Suc n] =
      row_at (content f) (pos f) # map (\<lambda>y. row_at (content f) (pos f + 24 + 24 * y)) [0..<n]"
    unfolding map_upt_Suc by (simp add: add.assoc)
  show ?case
    unfolding s ih m by (simp add: add.assoc)
qed

lemma read_rows_short:
  "length (content f) < pos f + 24 * n \<Longrightarrow> pos f \<le> length (content f) \<Longrightarrow>
   fst (read_rows n cells f) = Inl (TruncatedBlock BlockData)"
proof (induction n arbitrary: cells f)
  case 0
  then show ?case by simp
next
  case (Suc n)
  show ?case
  proof (cases "pos f + 24 \<le> length (content f)")
    case True
    let ?f1 = "f\<lparr>pos := pos f + 24\<rparr>"
    have s: "read_rows (Suc n) cells f = read_rows n (cells @ [row_at (content f) (pos f)]) ?f1"
      using True by (rule read_rows_step)
    have "fst (read_rows n (cells @ [row_at (content f) (pos f)]) ?f1) =
            Inl (TruncatedBlock BlockData)"
      using Suc.prems True by (intro Suc.IH) simp_all
    then show ?thesis unfolding s .
  next
    case False
    then have "length (content f) < pos f + 24" by simp
    then show ?thesis using Suc.prems(2) by (rule read_rows_stop)
  qed
qed

lemma read_header:
  "read 4 f = (take 4 (drop (pos f) (content f)),
               f\<lparr>pos := pos f + min 4 (length (content f) - pos f)\<rparr>)"
  by (simp add: read_def Let_def min_def)

lemma read_block_at:
  assumes "0 \<le> block_offset bx by blocks_down" and "block_offset bx by blocks_down < 2 ^ 63"
    and "block_offset bx by blocks_down \<le> int (max_offset f)"
  shows "fst (read_block f bx by blocks_down) =
     (let off = nat (block_offset bx by blocks_down) in
      if length (content f) < off + 4 then Inl (TruncatedBlock BlockHeader)
      else if length (content f) < off + 196 then Inl (TruncatedBlock BlockData)
      else Inr (block_at (content f) off))"
proof -
  define off where "off = nat (block_offset bx by blocks_down)"
  define f0 where "f0 = f\<lparr>pos := off\<rparr>"
  have sk: "seek (block_offset bx by blocks_down) f = (Inr (), f0)"
    using assms by (simp add: seek_def f0_def off_def)
  have c0: "content f0 = content f" and p0: "pos f0 = off" by (simp_all add: f0_def)
  show ?thesis
  proof (cases "length (content f) < off + 4")
    case True
    then have "length (take 4 (drop off (content f))) \<noteq> 4" by simp
    then have "fst (read_block f bx by blocks_down) = Inl (TruncatedBlock BlockHeader)"
      by (simp add: read_block_def sk read_header c0 p0 del: length_take length_drop)
    then show ?thesis using True by (simp add: off_def [symmetric] Let_def)
  next
    case False
    define f1 where "f1 = f0\<lparr>pos := off + 4\<rparr>"
    have c1: "content f1 = content f" and p1: "pos f1 = off + 4" by (simp_all add: f1_def f0_def)
    have rh: "read 4 f0 = (take 4 (drop off (content f)), f1)"
      using False by (simp add: read_header c0 p0 f1_def min_def)
    have lh: "length (take 4 (drop off (content f))) = 4" using False by simp
    have rb: "read_block f bx by blocks_down =
        (case read_rows 8 [] f1 of
           (Inl e, f2) \<Rightarrow> (Inl e, f2)
         | (Inr cells, f2) \<Rightarrow> (Inr (take 4 (drop off (content f)), cells), f2))"
      using lh by (simp add: read_block_def sk rh del: length_take length_drop)
    show ?thesis
    proof (cases "length (content f) < off + 196")
      case True
      have "fst (read_rows 8 [] f1) = Inl (TruncatedBlock BlockData)"
        using True False read_rows_short [of f1 8 "[]"] by (simp add: c1 p1)
      then have "fst (read_block f bx by blocks_down) = Inl (TruncatedBlock BlockData)"
        unfolding rb by (cases "read_rows 8 [] f1") simp
      then show ?thesis using True False by (simp add: off_def [symmetric] Let_def)
    next
      case ge: False
      have "read_rows 8 [] f1 =
              (Inr (map (\<lambda>y. row_at (content f) (off + 4 + 24 * y)) [0..<8]), f1\<lparr>pos := off + 4 + 24 * 8\<rparr>)"
        using ge read_rows_ok [of f1 8 "[]"] by (simp add: c1 p1)
      then have "fst (read_block f bx by blocks_down) =
          Inr (take 4 (drop off (content f)), map (\<lambda>y. row_at (content f) (off + 4 + 24 * y)) [0..<8])"
        unfolding rb by simp
      moreover have "map (\<lambda>y. row_at (content f) (off + 4 + 24 * y)) [0..<8] =
          map (\<lambda>y. map (\<lambda>x. cell_at (content f) (off + 4 + 3 * (8 * y + x))) [0..<8]) [0..<8]"
        by (simp add: row_at_def algebra_simps del: upt_Suc)
      ultimately show ?thesis using ge False by (simp add: off_def [symmetric] Let_def block_at_def)
    qed
  qed
qed










section \<open>The block address resolver\<close>

text \<open>
  Claim C2. For every block coordinate and every \<open>blocks_down\<close> the resolver returns
  \<open>((bx * blocks_down) + by) * 196\<close>, the block size being 196 bytes. The order is
  column-major: one step in \<open>by\<close> is one block further, one step in \<open>bx\<close> is
  \<open>blocks_down\<close> blocks further.
\<close>

theorem block_offset_column_major:
  "block_offset bx by blocks_down = ((bx * blocks_down) + by) * 196
   \<and> BLOCK_SIZE_BYTES = 196
   \<and> block_offset bx (by + 1) blocks_down = block_offset bx by blocks_down + 196
   \<and> block_offset (bx + 1) by blocks_down = block_offset bx by blocks_down + blocks_down * 196"
  by (simp add: block_offset_def BLOCK_SIZE_BYTES_def algebra_simps)

section \<open>Dimension inference\<close>

subsection \<open>The integer square root and the bit length\<close>

lemma isqrt_small: "n < 2 \<Longrightarrow> isqrt n = n"
  by (subst isqrt.simps) simp

lemma isqrt_rec: "\<not> n < 2 \<Longrightarrow> isqrt n = isqrt_step n (2 * isqrt (n div 4))"
  by (subst isqrt.simps) simp

lemma isqrt_bounds: "isqrt n * isqrt n \<le> n \<and> n < (isqrt n + 1) * (isqrt n + 1)"
proof (induction n rule: isqrt.induct)
  case (1 n)
  show ?case
  proof (cases "n < 2")
    case True
    then have "n = 0 \<or> n = 1" by arith
    then show ?thesis using isqrt_small [OF True] by auto
  next
    case False
    define r where "r = isqrt (n div 4)"
    have ih: "r * r \<le> n div 4" "n div 4 < (r + 1) * (r + 1)"
      using 1 False by (simp_all add: r_def)
    have lo: "(2 * r) * (2 * r) \<le> n"
    proof -
      have "4 * (r * r) \<le> 4 * (n div 4)" using ih(1) by simp
      also have "\<dots> \<le> n" by simp
      finally show ?thesis by (simp add: algebra_simps)
    qed
    have hi: "n < (2 * r + 2) * (2 * r + 2)"
    proof -
      have "n div 4 + 1 \<le> (r + 1) * (r + 1)" using ih(2) by simp
      then have "4 * (n div 4 + 1) \<le> 4 * ((r + 1) * (r + 1))" by simp
      moreover have "n < 4 * (n div 4 + 1)" by simp
      ultimately have "n < 4 * ((r + 1) * (r + 1))" by linarith
      then show ?thesis by (simp add: algebra_simps)
    qed
    have e: "isqrt n = isqrt_step n (2 * r)"
      unfolding r_def by (rule isqrt_rec [OF False])
    show ?thesis
    proof (cases "(2 * r + 1) * (2 * r + 1) \<le> n")
      case True
      then have "isqrt n = 2 * r + 1" by (simp add: e isqrt_step_def)
      then show ?thesis using True hi by (simp add: algebra_simps)
    next
      case F: False
      then have "isqrt n = 2 * r" by (simp add: e isqrt_step_def)
      then show ?thesis using F lo by (simp add: algebra_simps)
    qed
  qed
qed


lemma square_less_imp_less:
  fixes a b :: nat
  assumes "a * a < b * b"
  shows "a < b"
proof (rule ccontr)
  assume "\<not> a < b"
  then have "b \<le> a" by simp
  then have "b * b \<le> a * a" using mult_le_mono [of b a b a] by simp
  with assms show False by simp
qed

lemma bit_length_0: "bit_length 0 = 0"
  by (subst bit_length.simps) simp

lemma bit_length_rec: "n \<noteq> 0 \<Longrightarrow> bit_length n = Suc (bit_length (n div 2))"
  by (subst bit_length.simps) simp

lemma bit_length_bounds: "n < 2 ^ bit_length n \<and> (0 < n \<longrightarrow> 2 ^ (bit_length n - 1) \<le> n)"
proof (induction n rule: bit_length.induct)
  case (1 n)
  show ?case
  proof (cases "n = 0")
    case True
    then show ?thesis by (simp add: bit_length_0)
  next
    case False
    define m where "m = n div 2"
    have b: "bit_length n = Suc (bit_length m)"
      unfolding m_def by (rule bit_length_rec [OF False])
    have ih: "m < 2 ^ bit_length m" "0 < m \<longrightarrow> 2 ^ (bit_length m - 1) \<le> m"
      using 1 False by (simp_all add: m_def)
    have u: "n < 2 ^ bit_length n"
    proof -
      have "n < 2 * (m + 1)" by (simp add: m_def)
      also have "\<dots> \<le> 2 * 2 ^ bit_length m" using ih(1) by simp
      finally show ?thesis by (simp add: b)
    qed
    have l: "2 ^ (bit_length n - 1) \<le> n"
    proof (cases "m = 0")
      case True
      then show ?thesis using False by (simp add: b bit_length_0)
    next
      case F: False
      then have "2 ^ (bit_length m - 1) \<le> m" using ih(2) by simp
      then have "2 * 2 ^ (bit_length m - 1) \<le> 2 * m" by simp
      moreover have "bit_length m \<noteq> 0" using bit_length_rec [OF F] by simp
      then have "(2::nat) * 2 ^ (bit_length m - 1) = 2 ^ bit_length m"
        by (cases "bit_length m") simp_all
      moreover have "2 * m \<le> n" by (simp add: m_def)
      ultimately show ?thesis by (simp add: b)
    qed
    show ?thesis using u l by simp
  qed
qed


lemma float_of_nat_exact:
  assumes "n < 2 ^ 53"
  shows "float_of_nat n = Inr n"
proof -
  have "bit_length n \<le> 53"
  proof (rule ccontr)
    assume "\<not> bit_length n \<le> 53"
    then have l: "54 \<le> bit_length n" by simp
    then have "0 < n" using bit_length_0 by (cases "n = 0") simp_all
    then have "2 ^ (bit_length n - 1) \<le> n" using bit_length_bounds [of n] by simp
    moreover have "(2::nat) ^ 53 \<le> 2 ^ (bit_length n - 1)"
      using l by (intro power_increasing) simp_all
    ultimately show False using assms by simp
  qed
  then have s: "bit_length n - 53 = 0" by simp
  have "n < 2 ^ 1024"
    using assms power_strict_increasing [of 53 1024 "2 :: nat"] by simp
  then show ?thesis by (simp add: float_of_nat_def s round_half_even_def Let_def not_le)
qed

lemma sqrt_trunc_exact:
  assumes "t < 2 ^ 52"
  shows "sqrt_trunc t = isqrt t"
proof (cases "t = 0")
  case True
  then show ?thesis by (simp add: sqrt_trunc_def isqrt_small)
next
  case False
  define e where "e = (bit_length t - 1) div 2"
  define k where "k = 52 - e"
  define K :: nat where "K = 2 ^ k"
  define s where "s = isqrt t"
  define w where "w = t * 4 ^ k"
  define q where "q = isqrt w"
  have bl: "t < 2 ^ bit_length t" "2 ^ (bit_length t - 1) \<le> t"
    using bit_length_bounds [of t] False by simp_all
  have L: "bit_length t \<le> 52"
  proof (rule ccontr)
    assume "\<not> bit_length t \<le> 52"
    then have "(2::nat) ^ 52 \<le> 2 ^ (bit_length t - 1)" by (intro power_increasing) simp_all
    then show False using bl(2) assms by simp
  qed
  have e25: "e \<le> 25" using L by (simp add: e_def)
  then have e52: "e \<le> 52" by simp
  have k27: "27 \<le> k" using e25 by (simp add: k_def)
  have "bit_length t \<le> 2 * e + 2" by (simp add: e_def)
  then have "(2::nat) ^ bit_length t \<le> 2 ^ (2 * e + 2)" by (intro power_increasing) simp_all
  moreover have "(2::nat) ^ (2 * e + 2) = 2 ^ (e + 1) * 2 ^ (e + 1)"
  proof -
    have "2 * e + 2 = (e + 1) + (e + 1)" by simp
    then show ?thesis by (simp only: power_add)
  qed
  ultimately have "(2::nat) ^ bit_length t \<le> 2 ^ (e + 1) * 2 ^ (e + 1)" by (simp only:)
  with bl(1) have t_hi: "t < 2 ^ (e + 1) * 2 ^ (e + 1)" by (rule less_le_trans)
  have sb: "s * s \<le> t" "t < (s + 1) * (s + 1)" using isqrt_bounds [of t] by (simp_all add: s_def)
  have "s * s < 2 ^ (e + 1) * 2 ^ (e + 1)" using sb(1) t_hi by (rule le_less_trans)
  then have s_lt: "s < 2 ^ (e + 1)" by (rule square_less_imp_less)
  have "(2::nat) ^ (e + 1) \<le> 2 ^ k" using e25 k27 by (intro power_increasing) simp_all
  then have sK: "s + 1 \<le> K" using s_lt by (simp add: K_def)
  have K0: "0 < K" by (simp add: K_def)
  have "(4::nat) ^ k = (2 * 2) ^ k" by simp
  also have "\<dots> = 2 ^ k * 2 ^ k" by (rule power_mult_distrib)
  finally have w: "w = t * (K * K)" by (simp only: w_def K_def)
  have qb: "q * q \<le> w" "w < (q + 1) * (q + 1)" using isqrt_bounds [of w] by (simp_all add: q_def)
  have lo: "s * K \<le> q"
  proof -
    have "(s * K) * (s * K) = (s * s) * (K * K)" by (simp add: algebra_simps)
    also have "\<dots> \<le> t * (K * K)" using sb(1) by simp
    also have "\<dots> < (q + 1) * (q + 1)" using qb(2) by (simp add: w)
    finally have "s * K < q + 1" by (rule square_less_imp_less)
    then show ?thesis by simp
  qed
  have up: "w + K * K \<le> ((s + 1) * K) * ((s + 1) * K)"
  proof -
    have "t + 1 \<le> (s + 1) * (s + 1)" using sb(2) by simp
    then have "(t + 1) * (K * K) \<le> ((s + 1) * (s + 1)) * (K * K)" by (rule mult_le_mono1)
    then show ?thesis by (simp add: w algebra_simps)
  qed
  have hi: "q + 1 \<le> (s + 1) * K"
  proof -
    have "w < w + K * K" using K0 by simp
    with qb(1) have "q * q < w + K * K" by (rule le_less_trans)
    then have "q * q < ((s + 1) * K) * ((s + 1) * K)" using up by (rule less_le_trans)
    then have "q < (s + 1) * K" by (rule square_less_imp_less)
    then show ?thesis by simp
  qed
  define m where "m = (if q * q + q < w then q + 1 else q)"
  have m_lo: "s * K \<le> m" using lo by (simp add: m_def)
  have m_hi: "m < (s + 1) * K"
  proof (cases "q * q + q < w")
    case False
    then show ?thesis using hi by (simp add: m_def)
  next
    case True
    have "q + 1 \<noteq> (s + 1) * K"
    proof
      assume eq: "q + 1 = (s + 1) * K"
      have "(s + 1) * K \<le> K * K" using sK by (rule mult_le_mono1)
      then have "w + (q + 1) \<le> w + K * K" using eq by simp
      also have "\<dots> \<le> (q + 1) * (q + 1)" using up eq by simp
      finally have "w \<le> q * q + q" by (simp add: algebra_simps)
      then show False using True by simp
    qed
    then have "q + 1 < (s + 1) * K" using hi by simp
    then show ?thesis using True by (simp add: m_def)
  qed
  have "m div K = s"
  proof -
    have "m div K < s + 1" using m_hi K0 by (simp add: div_less_iff_less_mult mult.commute)
    moreover have "s \<le> m div K" using m_lo K0 by (simp add: less_eq_div_iff_mult_less_eq)
    ultimately show ?thesis by simp
  qed
  moreover have "sqrt_trunc t = m div K"
    unfolding sqrt_trunc_def Let_def m_def q_def w_def K_def k_def e_def
    using False e52 [unfolded e_def] by simp
  ultimately show ?thesis by (simp add: s_def)
qed

subsection \<open>The truncated double-precision root\<close>

lemma int_math_sqrt_exact:
  assumes "0 \<le> t" and "t < 2 ^ 52"
  shows "int_math_sqrt t = Inr (int (isqrt (nat t)))"
proof -
  have a: "nat t < 2 ^ 52" using assms by (simp add: nat_less_iff)
  then have "nat t < 2 ^ 53"
    using power_strict_increasing [of 52 53 "2 :: nat"] by simp
  then have "float_of_nat (nat t) = Inr (nat t)" by (rule float_of_nat_exact)
  then show ?thesis using assms(1) by (simp add: int_math_sqrt_def sqrt_trunc_exact [OF a])
qed








subsection \<open>The table and the fallback\<close>



text \<open>
  Claim C10. Dimension inference accepts the empty file: for \<open>file_size = 0\<close> the alignment
  check passes, no table entry has product 0, and the fallback returns 0 blocks across,
  0 blocks down and 0 blocks in all, under the label of the heuristic.
\<close>

theorem autodetect_empty_file:
  "autodetect_block_dims 0 = Inr (0, 0, ''Heuristic'', 0)
   \<and> (0::int) mod BLOCK_SIZE_BYTES = 0
   \<and> scan_known KNOWN_BLOCK_DIMS 0 = None"
proof -
  have "int_math_sqrt 0 = Inr 0"
    using int_math_sqrt_exact [of 0] by (simp add: isqrt_small)
  then show ?thesis
    by (simp add: autodetect_block_dims_def BLOCK_SIZE_BYTES_def KNOWN_BLOCK_DIMS_def
        bind_err_def)
qed




section \<open>The streamed writers\<close>


lemma and_then_Inr [simp]: "and_then (Inr u, s) k = k s"
  by (simp add: and_then_def)

lemma and_then_Inl [simp]: "and_then (Inl e, s) k = (Inl e, s)"
  by (simp add: and_then_def)

lemma appendsD: "appends w b \<Longrightarrow> w out = (Inr (), out @ b)"
  by (simp add: appends_def)

lemma appends_eq: "appends w b \<Longrightarrow> b = b' \<Longrightarrow> appends w b'"
  by simp

lemma appends_f_write: "appends (f_write b) b"
  by (simp add: appends_def f_write_def)

lemma appends_write_packed: "p = Inr b \<Longrightarrow> appends (write_packed p) b"
  by (simp add: appends_def write_packed_def f_write_def)

lemma appends_seq_nil: "appends (seq_w []) []"
  by (simp add: appends_def)

lemma appends_seq_cons:
  "appends w b \<Longrightarrow> appends (seq_w ws) bs \<Longrightarrow> appends (seq_w (w # ws)) (b @ bs)"
  by (simp add: appends_def)

lemma appends_for_range:
  assumes "appends body b"
  shows "appends (for_range n body) (concat (replicate n b))"
  unfolding appends_def
proof
  fix out
  show "for_range n body out = (Inr (), out @ concat (replicate n b))"
  proof (induction n arbitrary: out)
    case 0
    show ?case by simp
  next
    case (Suc n)
    have "body out = (Inr (), out @ b)" by (rule appendsD [OF assms])
    then show ?case by (simp add: Suc.IH)
  qed
qed

lemma le_bytes_zero: "le_bytes n 0 = replicate n 0"
  by (simp add: le_bytes_def map_replicate_const)

lemma pack_zero:
  "pack_I 0 = Inr (replicate 4 0)" "pack_H 0 = Inr (replicate 2 0)"
  "pack_B 0 = Inr (replicate 1 0)" "pack_b 0 = Inr (replicate 1 0)"
  "pack_i 0 = Inr (replicate 4 0)"
  by (simp_all add: pack_I_def pack_H_def pack_B_def pack_b_def pack_i_def pack_unsigned_def
      pack_signed_def le_bytes_zero)

lemma concat_replicate_replicate:
  "concat (replicate n (replicate m x)) = replicate (n * m) x"
  by (induction n) (simp_all add: replicate_add)

lemma bytes_times_zero: "0 \<le> n \<Longrightarrow> bytes_times [0] n = replicate (nat n) 0"
  using concat_replicate_replicate [of "nat n" 1 "0 :: byte"] by (simp add: bytes_times_def)

lemma NAME20_ZERO_eq: "NAME20_ZERO = replicate 20 0"
  by (simp add: NAME20_ZERO_def bytes_times_zero)

lemma zeros_eq: "\<forall>y \<in> set xs. y = (0 :: byte) \<Longrightarrow> length xs = n \<Longrightarrow> xs = replicate n 0"
  using replicate_length_same [of xs 0] by simp

lemmas appends_step =
  appends_seq_cons appends_seq_nil appends_write_packed appends_f_write appends_for_range
  pack_zero

lemma land_entry_appends:
  "appends (seq_w [write_packed (pack_I 0), write_packed (pack_H 0), f_write NAME20_ZERO])
     (replicate 26 0)"
  by (rule appends_eq, (rule appends_step)+)
     (simp add: NAME20_ZERO_eq replicate_add [symmetric])

lemma land_group_appends:
  "appends
     (seq_w [write_packed (pack_I 0),
             for_range 32
               (seq_w [write_packed (pack_I 0), write_packed (pack_H 0), f_write NAME20_ZERO])])
     (replicate 836 0)"
  by (rule appends_eq, (rule appends_step land_entry_appends)+)
     (simp add: concat_replicate_replicate replicate_add [symmetric])

lemma static_entry_appends:
  "appends
     (seq_w
       [write_packed (pack_I 0), write_packed (pack_B 0), write_packed (pack_B 0),
        write_packed (pack_H 0), write_packed (pack_B 0), write_packed (pack_B 0),
        write_packed (pack_H 0), write_packed (pack_B 0), write_packed (pack_B 0),
        write_packed (pack_H 0), write_packed (pack_b 0), f_write NAME20_ZERO])
     (replicate 37 0)"
  by (rule appends_eq, (rule appends_step)+)
     (rule zeros_eq; simp add: NAME20_ZERO_eq)

lemma static_group_appends:
  "appends
     (seq_w [write_packed (pack_I 0),
        for_range 32 (seq_w
       [write_packed (pack_I 0), write_packed (pack_B 0), write_packed (pack_B 0),
        write_packed (pack_H 0), write_packed (pack_B 0), write_packed (pack_B 0),
        write_packed (pack_H 0), write_packed (pack_B 0), write_packed (pack_B 0),
        write_packed (pack_H 0), write_packed (pack_b 0), f_write NAME20_ZERO])])
     (replicate 1188 0)"
  by (rule appends_eq, (rule appends_step static_entry_appends)+)
     (simp add: concat_replicate_replicate replicate_add [symmetric])

lemma tiledata_writer_appends: "appends tiledata_writer tiledata_bytes"
  unfolding tiledata_writer_def tiledata_bytes_def LAND_GROUPS_def STATIC_GROUPS_def
  by (rule appends_eq, (rule appends_step land_group_appends static_group_appends)+) simp

lemma blankTileReg_appends:
  "appends (seq_w [for_range (nat LAND_GROUPS) write_land_group,
                   for_range (nat STATIC_GROUPS) write_static_group]) tiledata_bytes"
  unfolding write_land_group_def write_static_group_def tiledata_bytes_def LAND_GROUPS_def
    STATIC_GROUPS_def
  by (rule appends_eq, (rule appends_step land_group_appends static_group_appends)+) simp

lemma write_streamed_appends:
  "appends w b \<Longrightarrow>
   write_streamed path w force fs =
     (if fs path \<noteq> None \<and> \<not> force then (Inl (DestinationExists path), fs)
      else (Inr (), fs(path \<mapsto> b)))"
  by (simp add: write_streamed_def appendsD)

lemma tiledata_bytes_zero: "tiledata_bytes = replicate 2861056 0"
  by (simp add: tiledata_bytes_def concat_replicate_replicate replicate_add [symmetric])

text \<open>
  Claim C5. The tiledata writer takes no count: whenever it writes, the file is 512 land
  groups followed by 2048 static groups, every byte zero, \<open>512 * 836 + 2048 * 1188\<close> bytes
  in all. The stand-alone script writes the same bytes, a land group being 836 and a
  static group 1188 zero bytes.
\<close>

theorem tiledata_fixed_layout:
  "make_tiledata_mul force fs =
     (if fs ''tiledata.mul'' \<noteq> None \<and> \<not> force
      then (Inl (DestinationExists ''tiledata.mul''), fs)
      else (Inr (), fs(''tiledata.mul'' \<mapsto> tiledata_bytes)))
   \<and> blankTileReg_main fs = (Inr (), fs(''tiledata.mul'' \<mapsto> tiledata_bytes))
   \<and> write_land_group out = (Inr (), out @ replicate (4 + 32 * 26) 0)
   \<and> write_static_group out = (Inr (), out @ replicate (4 + 32 * 37) 0)
   \<and> tiledata_bytes =
       concat (replicate 512 (replicate 836 0)) @ concat (replicate 2048 (replicate 1188 0))
   \<and> length tiledata_bytes = 512 * 836 + 2048 * 1188
   \<and> tiledata_bytes = replicate (512 * 836 + 2048 * 1188) 0"
proof -
  have a: "make_tiledata_mul force fs =
     (if fs ''tiledata.mul'' \<noteq> None \<and> \<not> force
      then (Inl (DestinationExists ''tiledata.mul''), fs)
      else (Inr (), fs(''tiledata.mul'' \<mapsto> tiledata_bytes)))"
    unfolding make_tiledata_mul_def by (rule write_streamed_appends [OF tiledata_writer_appends])
  have b: "blankTileReg_main fs = (Inr (), fs(''tiledata.mul'' \<mapsto> tiledata_bytes))"
    by (simp add: blankTileReg_main_def appendsD [OF blankTileReg_appends] del: seq_w.simps)
  have c: "write_land_group out = (Inr (), out @ replicate (4 + 32 * 26) 0)"
    unfolding write_land_group_def using appendsD [OF land_group_appends, of out] by simp
  have d: "write_static_group out = (Inr (), out @ replicate (4 + 32 * 37) 0)"
    unfolding write_static_group_def using appendsD [OF static_group_appends, of out] by simp
  have e: "length tiledata_bytes = 512 * 836 + 2048 * 1188"
    by (simp add: tiledata_bytes_zero)
  have f: "tiledata_bytes = replicate (512 * 836 + 2048 * 1188) 0"
    by (simp add: tiledata_bytes_zero)
  show ?thesis using a b c d e f by (simp only: tiledata_bytes_def [symmetric] simp_thms)
qed

section \<open>The art index\<close>


lemma upt_0_4: "[0..<4] = [0, 1, 2, 3]"
  by code_simp

lemma upt_0_2: "[0..<2] = [0, 1]"
  by code_simp

lemma le_bytes_4:
  "le_bytes 4 v =
     [word_of_int v, word_of_int (v div 256), word_of_int (v div 65536),
      word_of_int (v div 16777216)]"
  by (simp add: le_bytes_def upt_0_4)

lemma le_bytes_2: "le_bytes 2 v = [word_of_int v, word_of_int (v div 256)]"
  by (simp add: le_bytes_def upt_0_2)

lemma le_bytes_1: "le_bytes (Suc 0) v = [word_of_int v]"
  by (simp add: le_bytes_def)

lemma pack_III_sentinel: "pack_III 0xFFFFFFFF 0 0 = Inr sentinel_record"
  by (simp add: pack_III_def pack_I_def pack_unsigned_def bind_err_def le_bytes_4
      sentinel_record_def)

lemma pack_iii_sentinel: "pack_iii (- 1) 0 0 = Inr sentinel_record"
  by (simp add: pack_iii_def pack_i_def pack_signed_def bind_err_def le_bytes_4
      sentinel_record_def)

lemma pack_Hb_tile:
  "0 \<le> t \<Longrightarrow> t \<le> 0xFFFF \<Longrightarrow> - 128 \<le> z \<Longrightarrow> z \<le> 127 \<Longrightarrow> pack_Hb t z = Inr (tile_bytes t z)"
  by (simp add: pack_Hb_def pack_H_def pack_b_def pack_unsigned_def pack_signed_def bind_err_def
      le_bytes_2 le_bytes_1 tile_bytes_def)

lemma length_concat_replicate: "length (concat (replicate n b)) = n * length b"
  by (induction n) simp_all

lemma length_index_bytes: "length (index_bytes n) = 12 * n"
  by (simp add: index_bytes_def length_concat_replicate sentinel_record_def)

lemma bytes_times_sentinel: "bytes_times sentinel_record n = index_bytes (nat n)"
  by (simp add: bytes_times_def index_bytes_def)

lemma make_artidx_mul_eq:
  "make_artidx_mul force (Some n) fs =
     (if fs ''artidx.mul'' \<noteq> None \<and> \<not> force then (Inl (DestinationExists ''artidx.mul''), fs)
      else (Inr (), fs(''artidx.mul'' \<mapsto> index_bytes (nat n))))"
  by (simp add: make_artidx_mul_def pack_III_sentinel write_file_def bytes_times_sentinel)

lemma make_art_stubs_eq:
  "make_art_stubs (Some ap) (Some ip) (Some n) fs =
     (Inr (), (fs(ap \<mapsto> []))(ip \<mapsto> index_bytes (nat n)))"
proof -
  have "appends (for_range (nat n) (write_packed (pack_III 0xFFFFFFFF 0 0))) (index_bytes (nat n))"
    unfolding index_bytes_def
    by (intro appends_for_range appends_write_packed pack_III_sentinel)
  then have "for_range (nat n) (write_packed (pack_III 0xFFFFFFFF 0 0)) [] =
      (Inr (), index_bytes (nat n))"
    using appendsD by fastforce
  then show ?thesis by (simp add: make_art_stubs_def)
qed

text \<open>
  Claim C6, as amended. For every entry count \<open>n \<ge> 0\<close> the art index written by
  \<open>make_artidx_mul\<close>, and the one written by \<open>make_art_stubs\<close>, is \<open>n\<close> sentinel records
  \<open>(0xFFFFFFFF, 0, 0)\<close> one after the other, \<open>12 * n\<close> bytes. The count left out, the
  pipeline writer \<open>make_artidx_mul\<close> and the command line take \<open>0x14000\<close>, and the
  stand-alone \<open>make_art_stubs\<close> takes \<open>0x10000\<close>.
\<close>

theorem artidx_sentinel_records:
  assumes "0 \<le> n"
  shows "make_artidx_mul force (Some n) fs =
           (if fs ''artidx.mul'' \<noteq> None \<and> \<not> force
            then (Inl (DestinationExists ''artidx.mul''), fs)
            else (Inr (), fs(''artidx.mul'' \<mapsto> index_bytes (nat n))))
       \<and> make_art_stubs (Some ap) (Some ip) (Some n) fs =
           (Inr (), (fs(ap \<mapsto> []))(ip \<mapsto> index_bytes (nat n)))
       \<and> int (length (index_bytes (nat n))) = 12 * n
       \<and> index_bytes (nat n) =
           concat (replicate (nat n) [0xFF, 0xFF, 0xFF, 0xFF, 0, 0, 0, 0, 0, 0, 0, 0])
       \<and> make_artidx_mul force None fs = make_artidx_mul force (Some 0x14000) fs
       \<and> opt_artidx_entries argparse_defaults = 0x14000
       \<and> make_art_stubs (Some ap) (Some ip) None fs =
           make_art_stubs (Some ap) (Some ip) (Some 0x10000) fs"
proof -
  have "int (length (index_bytes (nat n))) = 12 * n"
    using assms by (simp add: length_index_bytes)
  moreover have "index_bytes (nat n) =
           concat (replicate (nat n) [0xFF, 0xFF, 0xFF, 0xFF, 0, 0, 0, 0, 0, 0, 0, 0])"
    by (simp add: index_bytes_def sentinel_record_def)
  moreover have "make_artidx_mul force None fs = make_artidx_mul force (Some 0x14000) fs"
    by (simp add: make_artidx_mul_def)
  moreover have "opt_artidx_entries argparse_defaults = 0x14000"
    by (simp add: argparse_defaults_def)
  moreover have "make_art_stubs (Some ap) (Some ip) None fs =
           make_art_stubs (Some ap) (Some ip) (Some 0x10000) fs"
    by (simp add: make_art_stubs_def)
  ultimately show ?thesis using make_artidx_mul_eq make_art_stubs_eq by blast
qed

theorem artidx_sentinel_records_witness:
  "make_artidx_mul False (Some 2) Map.empty =
     (Inr (), [''artidx.mul'' \<mapsto>
        [0xFF, 0xFF, 0xFF, 0xFF, 0, 0, 0, 0, 0, 0, 0, 0,
         0xFF, 0xFF, 0xFF, 0xFF, 0, 0, 0, 0, 0, 0, 0, 0]])
   \<and> length (index_bytes 2) = 24"
  using artidx_sentinel_records [of 2 False Map.empty]
  by (simp add: numeral_2_eq_2)

text \<open>The claim as stated gives \<open>0x14000\<close> as the default count of the art index; the
  index \<open>make_art_stubs\<close> writes by default has \<open>12 * 0x10000\<close> bytes.\<close>

theorem art_stubs_default_counterexample:
  "map_option length (snd (make_art_stubs None None None Map.empty) ''artidx.mul'')
     = Some (12 * 0x10000)
   \<and> (12 * 0x10000 :: nat) \<noteq> 12 * 0x14000"
proof -
  have "make_art_stubs None None None Map.empty =
      make_art_stubs (Some ''art.mul'') (Some ''artidx.mul'') (Some 0x10000) Map.empty"
    by (simp add: make_art_stubs_def)
  then show ?thesis by (simp add: make_art_stubs_eq length_index_bytes)
qed

section \<open>The map and its static index\<close>


lemma write_streamed_as_write_file:
  "appends w b \<Longrightarrow> write_streamed path w force fs = write_file path b force fs"
  by (simp add: write_streamed_def write_file_def appendsD)

lemma length_one_block: "length (one_block t z) = 196"
  by (simp add: one_block_def tile_bytes_def length_concat_replicate)

lemma length_map_bytes: "length (map_bytes n t z) = n * 196"
  by (simp add: map_bytes_def length_concat_replicate length_one_block)

lemma write_map_appends: "appends (write_map bc blk) (concat (replicate (nat bc) blk))"
  unfolding write_map_def by (intro appends_for_range appends_f_write)

lemma write_staidx_appends: "appends (write_staidx bc e) (bytes_times e bc)"
  unfolding write_staidx_def by (rule appends_f_write)

lemma paths_distinct:
  "map_path f \<noteq> staidx_path f" "map_path f \<noteq> statics_path f" "staidx_path f \<noteq> statics_path f"
  "staidx_path f \<noteq> map_path f" "statics_path f \<noteq> map_path f" "statics_path f \<noteq> staidx_path f"
  by (simp_all add: map_path_def staidx_path_def statics_path_def)

lemma require_multiple_of_8_ok:
  "0 < v \<Longrightarrow> v mod 8 = 0 \<Longrightarrow> require_multiple_of_8 v name = Inr ()"
  by (simp add: require_multiple_of_8_def)

lemma make_map_and_statics_valid:
  assumes "0 < w" "w mod 8 = 0" "0 < h" "h mod 8 = 0" and "0 \<le> facet" "facet \<le> 255"
    and "0 \<le> t" "t \<le> 0x3FFF" and "- 128 \<le> z" "z \<le> 127"
  shows "make_map_and_statics force facet w h t z fs =
     and_then (write_file (map_path facet) (map_bytes (nat (w div 8 * (h div 8))) t z) force fs)
       (\<lambda>fs1. and_then (write_file (staidx_path facet) (index_bytes (nat (w div 8 * (h div 8))))
                         force fs1)
       (\<lambda>fs2. write_file (statics_path facet) [] force fs2))"
proof -
  have p: "pack_Hb t z = Inr (tile_bytes t z)"
    using assms by (intro pack_Hb_tile) simp_all
  have b: "replicate 4 0 @ bytes_times (tile_bytes t z) 64 = one_block t z"
    by (simp add: one_block_def bytes_times_def)
  show ?thesis
    using assms
    by (simp add: make_map_and_statics_def require_multiple_of_8_ok p pack_zero b
        length_one_block pack_iii_sentinel Let_def
        write_streamed_as_write_file [OF write_map_appends]
        write_streamed_as_write_file [OF write_staidx_appends]
        bytes_times_sentinel map_bytes_def)
qed

lemma make_map_and_statics_written:
  assumes "0 < w" "w mod 8 = 0" "0 < h" "h mod 8 = 0" and "0 \<le> facet" "facet \<le> 255"
    and "0 \<le> t" "t \<le> 0x3FFF" and "- 128 \<le> z" "z \<le> 127"
    and "force \<or> (fs (map_path facet) = None \<and> fs (staidx_path facet) = None
           \<and> fs (statics_path facet) = None)"
  shows "make_map_and_statics force facet w h t z fs =
     (Inr (), fs(map_path facet \<mapsto> map_bytes (nat (w div 8 * (h div 8))) t z,
                 staidx_path facet \<mapsto> index_bytes (nat (w div 8 * (h div 8))),
                 statics_path facet \<mapsto> []))"
  unfolding make_map_and_statics_valid [OF assms(1-10)]
  using assms(11) by (auto simp: write_file_def paths_distinct)


lemma nth_concat_replicate:
  "i < n \<Longrightarrow> r < length b \<Longrightarrow> concat (replicate n b) ! (i * length b + r) = b ! r"
proof (induction n arbitrary: i)
  case 0
  then show ?case by simp
next
  case (Suc n)
  show ?case
  proof (cases i)
    case 0
    then show ?thesis using Suc.prems by (simp add: nth_append)
  next
    case (Suc j)
    then have "j < n" using Suc.prems by simp
    then have "concat (replicate n b) ! (j * length b + r) = b ! r"
      using Suc.prems by (intro Suc.IH) simp_all
    then show ?thesis using Suc by (simp add: nth_append)
  qed
qed

lemma uint_le_pair:
  assumes "0 \<le> t" and "t \<le> 0xFFFF"
  shows "uint (word_of_int t :: byte) + 256 * uint (word_of_int (t div 256) :: byte) = t"
proof -
  have "t div 256 < 256" using assms by simp
  moreover have "0 \<le> t div 256" using assms by simp
  ultimately have "(t div 256) mod 256 = t div 256" by simp
  then show ?thesis by (simp add: uint_word_of_int)
qed

lemma sint_byte:
  assumes "- 128 \<le> z" and "z \<le> 127"
  shows "sint (word_of_int z :: byte) = z"
  using assms by (simp add: sint_sbintrunc' signed_take_bit_int_eq_self)

lemma one_block_nth_header: "r < 4 \<Longrightarrow> one_block t z ! r = 0"
  by (simp add: one_block_def nth_append)

lemma one_block_nth_cell:
  assumes "k < 64" and "j < 3"
  shows "one_block t z ! (4 + 3 * k + j) = tile_bytes t z ! j"
proof -
  have len: "length (tile_bytes t z) = 3" by (simp add: tile_bytes_def)
  have "j < length (tile_bytes t z)" using assms(2) by (simp add: len)
  then have a: "concat (replicate 64 (tile_bytes t z)) ! (k * 3 + j) = tile_bytes t z ! j"
    using nth_concat_replicate [OF assms(1), of j "tile_bytes t z"] unfolding len by blast
  have "one_block t z ! (4 + (k * 3 + j)) = concat (replicate 64 (tile_bytes t z)) ! (k * 3 + j)"
    unfolding one_block_def by (simp add: nth_append)
  moreover have "4 + 3 * k + j = 4 + (k * 3 + j)" by simp
  ultimately show ?thesis using a by (simp only:)
qed

lemma map_bytes_nth:
  assumes "i < n" and "r < 196"
  shows "map_bytes n t z ! (i * 196 + r) = one_block t z ! r"
  using nth_concat_replicate [of i n r "one_block t z"] assms
  by (simp add: map_bytes_def length_one_block)

lemma cell_at_map_bytes:
  assumes "i < n" and "k < 64" and "0 \<le> t" "t \<le> 0xFFFF" and "- 128 \<le> z" "z \<le> 127"
  shows "cell_at (map_bytes n t z) (i * 196 + 4 + 3 * k) = (t, z)"
proof -
  have n: "map_bytes n t z ! (i * 196 + 4 + 3 * k + j) = tile_bytes t z ! j" if "j < 3" for j
  proof -
    have "map_bytes n t z ! (i * 196 + (4 + 3 * k + j)) = one_block t z ! (4 + 3 * k + j)"
      using assms(1,2) that by (intro map_bytes_nth) simp_all
    then show ?thesis using one_block_nth_cell [OF assms(2) that, of t z] by (simp add: add.assoc)
  qed
  have "map_bytes n t z ! (i * 196 + 4 + 3 * k) = tile_bytes t z ! 0"
    using n [of 0] by simp
  moreover have "map_bytes n t z ! (i * 196 + 4 + 3 * k + 1) = tile_bytes t z ! 1"
    using n [of 1] by simp
  moreover have "map_bytes n t z ! (i * 196 + 4 + 3 * k + 2) = tile_bytes t z ! 2"
    using n [of 2] by simp
  ultimately show ?thesis
    using uint_le_pair [OF assms(3,4)] sint_byte [OF assms(5,6)]
    by (simp add: cell_at_def tile_bytes_def)
qed

lemma header_map_bytes:
  assumes "i < n"
  shows "take 4 (drop (i * 196) (map_bytes n t z)) = replicate 4 0"
proof (rule nth_equalityI)
  have l: "i * 196 + 196 \<le> length (map_bytes n t z)"
    using assms by (simp add: length_map_bytes)
  then show "length (take 4 (drop (i * 196) (map_bytes n t z))) = length (replicate 4 (0 :: byte))"
    by simp
  fix r assume "r < length (take 4 (drop (i * 196) (map_bytes n t z)))"
  then have r: "r < 4" by simp
  then have "map_bytes n t z ! (i * 196 + r) = one_block t z ! r"
    using assms by (intro map_bytes_nth) simp_all
  then show "take 4 (drop (i * 196) (map_bytes n t z)) ! r = replicate 4 0 ! r"
    using r l by (simp add: one_block_nth_header)
qed

lemma block_at_map_bytes:
  assumes "i < n" and "0 \<le> t" "t \<le> 0xFFFF" and "- 128 \<le> z" "z \<le> 127"
  shows "block_at (map_bytes n t z) (i * 196) = (replicate 4 0, replicate 8 (replicate 8 (t, z)))"
proof -
  have c: "cell_at (map_bytes n t z) (i * 196 + 4 + 3 * (8 * y + x)) = (t, z)"
    if "y < 8" "x < 8" for x y
    using assms that by (intro cell_at_map_bytes) simp_all
  have "map (\<lambda>y. map (\<lambda>x. cell_at (map_bytes n t z) (i * 196 + 4 + 3 * (8 * y + x))) [0..<8]) [0..<8]
      = map (\<lambda>y. map (\<lambda>x. (t, z)) [0..<8]) [0..<8]"
  proof (rule map_cong [OF refl], rule map_cong [OF refl])
    fix y x :: nat
    assume "y \<in> set [0..<8]" and "x \<in> set [0..<8]"
    then have "y < 8" and "x < 8" by simp_all
    then show "cell_at (map_bytes n t z) (i * 196 + 4 + 3 * (8 * y + x)) = (t, z)"
      by (rule c)
  qed
  also have "\<dots> = replicate 8 (replicate 8 (t, z))"
    by (simp add: map_replicate_const)
  finally show ?thesis by (simp add: block_at_def header_map_bytes [OF assms(1)])
qed

lemma block_index_bound:
  fixes bx "by" bw bh :: int
  assumes "0 \<le> bx" "bx < bw" "0 \<le> by" "by < bh"
  shows "0 \<le> bx * bh + by" and "bx * bh + by < bw * bh"
proof -
  show "0 \<le> bx * bh + by" using assms by simp
  have "(bx + 1) * bh \<le> bw * bh" using assms by (intro mult_right_mono) simp_all
  then show "bx * bh + by < bw * bh" using assms by (simp add: algebra_simps)
qed

lemma read_block_map_bytes:
  assumes "0 \<le> bx" "bx < bw" "0 \<le> by" "by < bh"
    and "0 \<le> t" "t \<le> 0xFFFF" and "- 128 \<le> z" "z \<le> 127"
    and "bw * bh * 196 \<le> int lim" and "lim < 2 ^ 63"
  shows "fst (read_block \<lparr>content = map_bytes (nat (bw * bh)) t z, pos = p, max_offset = lim\<rparr>
               bx by bh) =
           Inr (replicate 4 0, replicate 8 (replicate 8 (t, z)))"
proof -
  define i where "i = nat (bx * bh + by)"
  define f where "f = \<lparr>content = map_bytes (nat (bw * bh)) t z, pos = p, max_offset = lim\<rparr>"
  have i: "i < nat (bw * bh)"
    using block_index_bound [OF assms(1-4)] by (simp add: i_def)
  have off: "nat (block_offset bx by bh) = i * 196"
    using block_index_bound(1) [OF assms(1-4)]
    by (simp add: block_offset_def BLOCK_SIZE_BYTES_def i_def nat_mult_distrib)
  have nn: "0 \<le> block_offset bx by bh"
    using block_index_bound(1) [OF assms(1-4)] by (simp add: block_offset_def BLOCK_SIZE_BYTES_def)
  have "block_offset bx by bh < bw * bh * 196"
    using block_index_bound(2) [OF assms(1-4)] by (simp add: block_offset_def BLOCK_SIZE_BYTES_def)
  then have le: "block_offset bx by bh \<le> int (max_offset f)"
    using assms(9) by (simp add: f_def)
  have "int lim < 2 ^ 63" using assms(10) by (simp add: of_nat_less_iff [of lim "2 ^ 63", simplified])
  then have lt: "block_offset bx by bh < 2 ^ 63"
    using le by (simp add: f_def)
  have l: "i * 196 + 196 \<le> length (content f)"
    using i by (simp add: length_map_bytes f_def)
  have "fst (read_block f bx by bh) = Inr (replicate 4 0, replicate 8 (replicate 8 (t, z)))"
    using read_block_at [OF nn lt le] l
    by (simp add: off Let_def f_def block_at_map_bytes [OF i assms(5-8)])
  then show ?thesis by (simp add: f_def)
qed

text \<open>
  Claim C1. For a valid geometry (\<open>w\<close> and \<open>h\<close> positive multiples of 8), defaults
  \<open>0 \<le> t \<le> 0x3FFF\<close> and \<open>-128 \<le> z \<le> 127\<close>, a facet in range and destinations that may be
  written, \<open>make_map_and_statics\<close> succeeds and leaves a map file of
  \<open>(w div 8) * (h div 8) * 196\<close> bytes. The file is then opened on a file system that holds
  it: the offsets it accepts, up to \<open>lim\<close> and within the 64-bit range, cover the size of
  the file. Reading any block \<open>(bx, by)\<close> of it, \<open>0 \<le> bx < w div 8\<close> and \<open>0 \<le> by < h div 8\<close>,
  with \<open>blocks_down = h div 8\<close> returns the header of four zero bytes (the header 0 as
  \<open>read_block\<close> returns it, undecoded) and 8 rows of 8 cells all equal to \<open>(t, z)\<close>. The
  witness is the scenario of the claim: 16 by 8 tiles, \<open>t = 2\<close>, \<open>z = -1\<close>, 392 bytes,
  block \<open>(1, 0)\<close>.
\<close>

theorem map_roundtrip:
  assumes "0 < w" "w mod 8 = 0" "0 < h" "h mod 8 = 0"
    and "0 \<le> t" "t \<le> 0x3FFF" and "- 128 \<le> z" "z \<le> 127"
    and "0 \<le> facet" "facet \<le> 255"
    and "force \<or> (fs (map_path facet) = None \<and> fs (staidx_path facet) = None
           \<and> fs (statics_path facet) = None)"
    and "0 \<le> bx" "bx < w div 8" "0 \<le> by" "by < h div 8"
    and "(w div 8) * (h div 8) * 196 \<le> int lim" and "lim < 2 ^ 63"
  shows "\<exists>fs' m. make_map_and_statics force facet w h t z fs = (Inr (), fs')
           \<and> fs' (map_path facet) = Some m
           \<and> int (length m) = (w div 8) * (h div 8) * 196
           \<and> fst (read_block \<lparr>content = m, pos = 0, max_offset = lim\<rparr> bx by (h div 8)) =
               Inr (replicate 4 0, replicate 8 (replicate 8 (t, z)))"
proof -
  define m where "m = map_bytes (nat (w div 8 * (h div 8))) t z"
  define fs' where "fs' = fs(map_path facet \<mapsto> m,
      staidx_path facet \<mapsto> index_bytes (nat (w div 8 * (h div 8))), statics_path facet \<mapsto> [])"
  have w: "make_map_and_statics force facet w h t z fs = (Inr (), fs')"
    unfolding fs'_def m_def
    by (rule make_map_and_statics_written [OF assms(1-4) assms(9,10) assms(5-8) assms(11)])
  have f: "fs' (map_path facet) = Some m"
    by (simp add: fs'_def paths_distinct)
  have "0 \<le> w div 8 * (h div 8)" using assms(1,3) by simp
  then have l: "int (length m) = (w div 8) * (h div 8) * 196"
    by (simp add: m_def length_map_bytes)
  have t: "t \<le> 0xFFFF" using assms(6) by simp
  have r: "fst (read_block \<lparr>content = m, pos = 0, max_offset = lim\<rparr> bx by (h div 8)) =
               Inr (replicate 4 0, replicate 8 (replicate 8 (t, z)))"
    unfolding m_def
    by (rule read_block_map_bytes [OF assms(12-15) assms(5) t assms(7,8) assms(16,17)])
  show ?thesis using w f l r by blast
qed

lemma str_int_0: "str_int 0 = ''0''"
  by (simp add: str_int_def str_nat.simps)

theorem map_roundtrip_witness:
  "\<exists>fs' m. make_map_and_statics True 0 16 8 2 (- 1) Map.empty = (Inr (), fs')
      \<and> fs' ''map0.mul'' = Some m \<and> length m = 392
      \<and> fst (read_block \<lparr>content = m, pos = 0, max_offset = 2 ^ 44\<rparr> 1 0 1) =
          Inr (replicate 4 0, replicate 8 (replicate 8 (2, - 1)))"
  using map_roundtrip [of 16 8 2 "- 1" 0 True Map.empty 1 0 "2 ^ 44"]
  by (simp add: map_path_def str_int_0)

text \<open>
  Claim C7. For a geometry with \<open>w\<close> and \<open>h\<close> positive multiples of 8 (and the other
  parameters valid, the destinations free or to be overwritten) the map written has
  \<open>(w div 8) * (h div 8) * 196\<close> bytes, the static index has \<open>(w div 8) * (h div 8) * 12\<close>
  bytes, one sentinel \<open>(-1, 0, 0)\<close> for each block, and the static data file is empty. The
  stand-alone script emptyX.py writes the same index and the same empty data file from the
  two block counts.
\<close>

theorem map_and_statics_lengths:
  assumes "0 < w" "w mod 8 = 0" "0 < h" "h mod 8 = 0"
    and "0 \<le> facet" "facet \<le> 255"
    and "0 \<le> t" "t \<le> 0x3FFF" and "- 128 \<le> z" "z \<le> 127"
    and "force \<or> (fs (map_path facet) = None \<and> fs (staidx_path facet) = None
           \<and> fs (statics_path facet) = None)"
  shows "make_map_and_statics force facet w h t z fs =
           (Inr (), fs(map_path facet \<mapsto> map_bytes (nat (w div 8 * (h div 8))) t z,
                       staidx_path facet \<mapsto> index_bytes (nat (w div 8 * (h div 8))),
                       statics_path facet \<mapsto> []))
       \<and> int (length (map_bytes (nat (w div 8 * (h div 8))) t z)) = (w div 8) * (h div 8) * 196
       \<and> int (length (index_bytes (nat (w div 8 * (h div 8))))) = (w div 8) * (h div 8) * 12
       \<and> index_bytes (nat (w div 8 * (h div 8))) =
           concat (replicate (nat (w div 8 * (h div 8)))
             [0xFF, 0xFF, 0xFF, 0xFF, 0, 0, 0, 0, 0, 0, 0, 0])
       \<and> pack_iii (- 1) 0 0 = Inr [0xFF, 0xFF, 0xFF, 0xFF, 0, 0, 0, 0, 0, 0, 0, 0]
       \<and> emptyX_main (w div 8) (h div 8) fs =
           (Inr (), fs(''staidx0.mul'' \<mapsto> index_bytes (nat (w div 8 * (h div 8))),
                       ''statics0.mul'' \<mapsto> []))"
proof -
  have n: "0 \<le> w div 8 * (h div 8)" using assms(1,3) by simp
  have a: "int (length (map_bytes (nat (w div 8 * (h div 8))) t z)) = (w div 8) * (h div 8) * 196"
    using n by (simp add: length_map_bytes)
  have b: "int (length (index_bytes (nat (w div 8 * (h div 8))))) = (w div 8) * (h div 8) * 12"
    using n by (simp add: length_index_bytes)
  have c: "index_bytes (nat (w div 8 * (h div 8))) =
           concat (replicate (nat (w div 8 * (h div 8)))
             [0xFF, 0xFF, 0xFF, 0xFF, 0, 0, 0, 0, 0, 0, 0, 0])"
    by (simp add: index_bytes_def sentinel_record_def)
  have d: "pack_iii (- 1) 0 0 = Inr [0xFF, 0xFF, 0xFF, 0xFF, 0, 0, 0, 0, 0, 0, 0, 0]"
    using pack_iii_sentinel by (simp add: sentinel_record_def)
  have e: "emptyX_main (w div 8) (h div 8) fs =
           (Inr (), fs(''staidx0.mul'' \<mapsto> index_bytes (nat (w div 8 * (h div 8))),
                       ''statics0.mul'' \<mapsto> []))"
    by (simp add: emptyX_main_def pack_iii_sentinel bytes_times_sentinel)
  show ?thesis
    using make_map_and_statics_written [OF assms] a b c d e by blast
qed

theorem map_and_statics_lengths_witness:
  "make_map_and_statics False 0 16 8 2 (- 1) Map.empty =
     (Inr (), [''map0.mul'' \<mapsto> map_bytes 2 2 (- 1), ''staidx0.mul'' \<mapsto> index_bytes 2,
               ''statics0.mul'' \<mapsto> []])
   \<and> length (map_bytes 2 2 (- 1)) = 392 \<and> length (index_bytes 2) = 24"
  using map_and_statics_lengths [of 16 8 0 2 "- 1" False Map.empty]
  by (simp add: map_path_def staidx_path_def statics_path_def str_int_0 length_concat_replicate)

section \<open>Validation of the map parameters\<close>


lemma make_map_and_statics_checks:
  fixes w h facet t z :: int
  shows
  "(w \<le> 0 \<longrightarrow> make_map_and_statics force facet w h t z fs =
      (Inl (InvalidDimension ''map-width'' NotPositive), fs))
   \<and> (0 < w \<and> w mod 8 \<noteq> 0 \<longrightarrow> make_map_and_statics force facet w h t z fs =
      (Inl (InvalidDimension ''map-width'' NotMultipleOf8), fs))
   \<and> (0 < w \<and> w mod 8 = 0 \<and> h \<le> 0 \<longrightarrow> make_map_and_statics force facet w h t z fs =
      (Inl (InvalidDimension ''map-height'' NotPositive), fs))
   \<and> (0 < w \<and> w mod 8 = 0 \<and> 0 < h \<and> h mod 8 \<noteq> 0 \<longrightarrow>
        make_map_and_statics force facet w h t z fs =
          (Inl (InvalidDimension ''map-height'' NotMultipleOf8), fs))
   \<and> (0 < w \<and> w mod 8 = 0 \<and> 0 < h \<and> h mod 8 = 0 \<and> (facet < 0 \<or> 255 < facet) \<longrightarrow>
        make_map_and_statics force facet w h t z fs = (Inl InvalidFacet, fs))
   \<and> (0 < w \<and> w mod 8 = 0 \<and> 0 < h \<and> h mod 8 = 0 \<and> 0 \<le> facet \<and> facet \<le> 255
        \<and> (t < 0 \<or> 0x3FFF < t) \<longrightarrow>
        make_map_and_statics force facet w h t z fs = (Inl InvalidTileId, fs))
   \<and> (0 < w \<and> w mod 8 = 0 \<and> 0 < h \<and> h mod 8 = 0 \<and> 0 \<le> facet \<and> facet \<le> 255
        \<and> 0 \<le> t \<and> t \<le> 0x3FFF \<and> (z < - 128 \<or> 127 < z) \<longrightarrow>
        make_map_and_statics force facet w h t z fs = (Inl InvalidAltitude, fs))"
  by (auto simp: make_map_and_statics_def require_multiple_of_8_def)

lemma make_map_and_statics_invalid:
  assumes "\<not> map_params_ok w h facet t z"
  shows "\<exists>e. is_validation_error e \<and> make_map_and_statics force facet w h t z fs = (Inl e, fs)"
proof -
  note c = make_map_and_statics_checks [of w force facet h t z fs]
  have 1: ?thesis if "\<not> 0 < w"
    using that c by simp
  have 2: ?thesis if "0 < w" "w mod 8 \<noteq> 0"
    using that c by simp
  have 3: ?thesis if "0 < w" "w mod 8 = 0" "\<not> 0 < h"
    using that c by simp
  have 4: ?thesis if "0 < w" "w mod 8 = 0" "0 < h" "h mod 8 \<noteq> 0"
    using that c by simp
  have 5: ?thesis if "0 < w" "w mod 8 = 0" "0 < h" "h mod 8 = 0" "\<not> (0 \<le> facet \<and> facet \<le> 255)"
    using that c by (auto simp: not_le)
  have 6: ?thesis if "0 < w" "w mod 8 = 0" "0 < h" "h mod 8 = 0" "0 \<le> facet \<and> facet \<le> 255"
      "\<not> (0 \<le> t \<and> t \<le> 0x3FFF)"
    using that c by (auto simp: not_le)
  have 7: ?thesis if "0 < w" "w mod 8 = 0" "0 < h" "h mod 8 = 0" "0 \<le> facet \<and> facet \<le> 255"
      "0 \<le> t \<and> t \<le> 0x3FFF" "\<not> (- 128 \<le> z \<and> z \<le> 127)"
    using that c by (auto simp: not_le)
  have a: "\<not> (0 < w \<and> w mod 8 = 0 \<and> 0 < h \<and> h mod 8 = 0 \<and> (0 \<le> facet \<and> facet \<le> 255)
     \<and> (0 \<le> t \<and> t \<le> 0x3FFF) \<and> (- 128 \<le> z \<and> z \<le> 127))"
    using assms unfolding map_params_ok_def by simp
  show ?thesis
  proof (cases "0 < w \<and> w mod 8 = 0")
    case False
    then show ?thesis using 1 2 by auto
  next
    case w: True
    show ?thesis
    proof (cases "0 < h \<and> h mod 8 = 0")
      case False
      then show ?thesis using w 3 4 by auto
    next
      case h: True
      show ?thesis
      proof (cases "0 \<le> facet \<and> facet \<le> 255")
        case False
        then show ?thesis using w h 5 by auto
      next
        case f: True
        show ?thesis
        proof (cases "0 \<le> t \<and> t \<le> 0x3FFF")
          case False
          then show ?thesis using w h f 6 by auto
        next
          case True
          then have "\<not> (- 128 \<le> z \<and> z \<le> 127)" using a w h f by auto
          then show ?thesis using w h f True 7 by auto
        qed
      qed
    qed
  qed
qed


lemma make_map_and_statics_one_block:
  assumes "0 \<le> facet" "facet \<le> 255" "0 \<le> t" "t \<le> 0x3FFF" "- 128 \<le> z" "z \<le> 127"
    and "force \<or> (fs (map_path facet) = None \<and> fs (staidx_path facet) = None
              \<and> fs (statics_path facet) = None)"
  shows "make_map_and_statics force facet 8 8 t z fs =
          (Inr (), fs(map_path facet \<mapsto> one_block t z, staidx_path facet \<mapsto> sentinel_record,
                      statics_path facet \<mapsto> []))"
  using make_map_and_statics_written [of 8 8 facet t z force fs] assms
  by (simp add: map_bytes_def index_bytes_def)

text \<open>
  Claim C8. The parameter checks of the map writer, in the order the writer makes them and
  each with the earlier ones passed: a width, then a height, that is not positive or not
  a multiple of 8 fails with \<open>InvalidDimension\<close>; a facet outside \<open>[0, 255]\<close> fails with
  \<open>InvalidFacet\<close>; a default tile id outside \<open>[0, 0x3FFF]\<close> with \<open>InvalidTileId\<close>; a default
  altitude outside \<open>[-128, 127]\<close> with \<open>InvalidAltitude\<close>; and nothing is written. With
  width 8 and height 8 the map is exactly one block of 196 bytes (and the index one
  sentinel). The witness has width 7, height 7, facet 256, tile id \<open>0x4000\<close> and altitude 128.
\<close>

theorem map_parameter_validation:
  fixes w h facet t z :: int
  shows
  "(w \<le> 0 \<longrightarrow> make_map_and_statics force facet w h t z fs =
      (Inl (InvalidDimension ''map-width'' NotPositive), fs))
   \<and> (0 < w \<and> w mod 8 \<noteq> 0 \<longrightarrow> make_map_and_statics force facet w h t z fs =
      (Inl (InvalidDimension ''map-width'' NotMultipleOf8), fs))
   \<and> (0 < w \<and> w mod 8 = 0 \<and> h \<le> 0 \<longrightarrow> make_map_and_statics force facet w h t z fs =
      (Inl (InvalidDimension ''map-height'' NotPositive), fs))
   \<and> (0 < w \<and> w mod 8 = 0 \<and> 0 < h \<and> h mod 8 \<noteq> 0 \<longrightarrow>
        make_map_and_statics force facet w h t z fs =
          (Inl (InvalidDimension ''map-height'' NotMultipleOf8), fs))
   \<and> (0 < w \<and> w mod 8 = 0 \<and> 0 < h \<and> h mod 8 = 0 \<and> (facet < 0 \<or> 255 < facet) \<longrightarrow>
        make_map_and_statics force facet w h t z fs = (Inl InvalidFacet, fs))
   \<and> (0 < w \<and> w mod 8 = 0 \<and> 0 < h \<and> h mod 8 = 0 \<and> 0 \<le> facet \<and> facet \<le> 255
        \<and> (t < 0 \<or> 0x3FFF < t) \<longrightarrow>
        make_map_and_statics force facet w h t z fs = (Inl InvalidTileId, fs))
   \<and> (0 < w \<and> w mod 8 = 0 \<and> 0 < h \<and> h mod 8 = 0 \<and> 0 \<le> facet \<and> facet \<le> 255
        \<and> 0 \<le> t \<and> t \<le> 0x3FFF \<and> (z < - 128 \<or> 127 < z) \<longrightarrow>
        make_map_and_statics force facet w h t z fs = (Inl InvalidAltitude, fs))
   \<and> (0 \<le> facet \<and> facet \<le> 255 \<and> 0 \<le> t \<and> t \<le> 0x3FFF \<and> - 128 \<le> z \<and> z \<le> 127
        \<and> (force \<or> (fs (map_path facet) = None \<and> fs (staidx_path facet) = None
              \<and> fs (statics_path facet) = None)) \<longrightarrow>
        make_map_and_statics force facet 8 8 t z fs =
          (Inr (), fs(map_path facet \<mapsto> one_block t z, staidx_path facet \<mapsto> sentinel_record,
                      statics_path facet \<mapsto> []))
        \<and> length (one_block t z) = 196 \<and> (8 div 8) * (8 div 8) = (1 :: int))"
proof -
  have "0 \<le> facet \<and> facet \<le> 255 \<and> 0 \<le> t \<and> t \<le> 0x3FFF \<and> - 128 \<le> z \<and> z \<le> 127
        \<and> (force \<or> (fs (map_path facet) = None \<and> fs (staidx_path facet) = None
              \<and> fs (statics_path facet) = None)) \<longrightarrow>
        make_map_and_statics force facet 8 8 t z fs =
          (Inr (), fs(map_path facet \<mapsto> one_block t z, staidx_path facet \<mapsto> sentinel_record,
                      statics_path facet \<mapsto> []))
        \<and> length (one_block t z) = 196 \<and> (8 div 8) * (8 div 8) = (1 :: int)"
    using make_map_and_statics_one_block [of facet t z force fs]
    by (simp add: length_one_block)
  with make_map_and_statics_checks [of w force facet h t z fs] show ?thesis
    by (elim conjE) (intro conjI, assumption+)
qed


theorem map_parameter_validation_witness:
  "make_map_and_statics False 0 7 8 0 0 Map.empty =
     (Inl (InvalidDimension ''map-width'' NotMultipleOf8), Map.empty)
   \<and> make_map_and_statics False 0 8 7 0 0 Map.empty =
     (Inl (InvalidDimension ''map-height'' NotMultipleOf8), Map.empty)
   \<and> make_map_and_statics False 0 0 8 0 0 Map.empty =
     (Inl (InvalidDimension ''map-width'' NotPositive), Map.empty)
   \<and> make_map_and_statics False 256 8 8 0 0 Map.empty = (Inl InvalidFacet, Map.empty)
   \<and> make_map_and_statics False 0 8 8 0x4000 0 Map.empty = (Inl InvalidTileId, Map.empty)
   \<and> make_map_and_statics False 0 8 8 0 128 Map.empty = (Inl InvalidAltitude, Map.empty)
   \<and> make_map_and_statics False 0 8 8 0 0 Map.empty =
       (Inr (), [''map0.mul'' \<mapsto> one_block 0 0, ''staidx0.mul'' \<mapsto> sentinel_record,
                 ''statics0.mul'' \<mapsto> []])
   \<and> length (one_block 0 0) = 196"
proof -
  have 1: "make_map_and_statics False 0 7 8 0 0 Map.empty =
     (Inl (InvalidDimension ''map-width'' NotMultipleOf8), Map.empty)"
    using map_parameter_validation [of 7 False 0 8 0 0 Map.empty] by simp
  have 2: "make_map_and_statics False 0 8 7 0 0 Map.empty =
     (Inl (InvalidDimension ''map-height'' NotMultipleOf8), Map.empty)"
    using map_parameter_validation [of 8 False 0 7 0 0 Map.empty] by simp
  have 3: "make_map_and_statics False 0 0 8 0 0 Map.empty =
     (Inl (InvalidDimension ''map-width'' NotPositive), Map.empty)"
    using map_parameter_validation [of 0 False 0 8 0 0 Map.empty] by simp
  have 4: "make_map_and_statics False 256 8 8 0 0 Map.empty = (Inl InvalidFacet, Map.empty)"
    using map_parameter_validation [of 8 False 256 8 0 0 Map.empty] by simp
  have 5: "make_map_and_statics False 0 8 8 0x4000 0 Map.empty = (Inl InvalidTileId, Map.empty)"
    using map_parameter_validation [of 8 False 0 8 "0x4000" 0 Map.empty] by simp
  have 6: "make_map_and_statics False 0 8 8 0 128 Map.empty = (Inl InvalidAltitude, Map.empty)"
    using map_parameter_validation [of 8 False 0 8 0 128 Map.empty] by simp
  have 7: "make_map_and_statics False 0 8 8 0 0 Map.empty =
       (Inr (), [''map0.mul'' \<mapsto> one_block 0 0, ''staidx0.mul'' \<mapsto> sentinel_record,
                 ''statics0.mul'' \<mapsto> []])
     \<and> length (one_block 0 0) = 196"
    using map_parameter_validation [of 8 False 0 8 0 0 Map.empty]
    by (simp add: map_path_def staidx_path_def statics_path_def str_int_0)
  show ?thesis using 1 2 3 4 5 6 7 by simp
qed

section \<open>The order of validation and writing in the pipeline\<close>


lemma hue_group_appends:
  "appends (seq_w [write_packed (pack_I 0), for_range 8 (f_write (replicate 88 0))])
     (replicate (4 + 8 * 88) 0)"
  by (rule appends_eq, (rule appends_step)+)
     (simp add: concat_replicate_replicate replicate_add [symmetric])

lemma hues_writer_appends: "appends (hues_writer g) (hues_bytes g)"
proof -
  have e: "bytes_times [0] (32 * 2) @ replicate 2 0 @ replicate 2 0 @ bytes_times [0] 20 =
      replicate 88 (0 :: byte)"
    by (simp add: bytes_times_zero replicate_add [symmetric])
  have "appends (for_range (nat g)
          (seq_w [write_packed (pack_I 0), for_range 8 (f_write (replicate 88 0))])) (hues_bytes g)"
    unfolding hues_bytes_def by (intro appends_for_range hue_group_appends)
  then have "hues_writer g out = (Inr (), out @ hues_bytes g)" for out
    unfolding hues_writer_def pack_zero bind_err_def
    by (simp only: sum.case e length_replicate appendsD if_False simp_thms)
  then show ?thesis by (simp add: appends_def)
qed

lemma make_art_mul_eq: "make_art_mul force fs = write_file ''art.mul'' [] force fs"
  by (simp add: make_art_mul_def)

lemma make_artidx_mul_write:
  "make_artidx_mul force (Some n) fs = write_file ''artidx.mul'' (index_bytes (nat n)) force fs"
  by (simp add: make_artidx_mul_eq write_file_def)

lemma make_tiledata_mul_write:
  "make_tiledata_mul force fs = write_file ''tiledata.mul'' tiledata_bytes force fs"
  unfolding make_tiledata_mul_def
  by (rule write_streamed_as_write_file [OF tiledata_writer_appends])

lemma make_hues_mul_write:
  "make_hues_mul force (Some g) fs = write_file ''hues.mul'' (hues_bytes g) force fs"
  by (simp add: make_hues_mul_def write_streamed_as_write_file [OF hues_writer_appends])

lemma make_radarcol_mul_write:
  "make_radarcol_mul force None fs = write_file ''radarcol.mul'' radarcol_bytes force fs"
proof -
  have "bytes_times [0, 0] 0x10000 = concat (replicate 65536 (replicate 2 (0 :: byte)))"
    by (simp add: bytes_times_def numeral_2_eq_2)
  also have "\<dots> = radarcol_bytes"
    by (simp add: concat_replicate_replicate radarcol_bytes_def)
  finally show ?thesis by (simp add: make_radarcol_mul_def)
qed

lemma main_first_five:
  assumes "opt_force a \<or> (fs ''art.mul'' = None \<and> fs ''artidx.mul'' = None
      \<and> fs ''tiledata.mul'' = None \<and> fs ''hues.mul'' = None \<and> fs ''radarcol.mul'' = None)"
  shows "main a fs =
     and_then
       (make_map_and_statics (opt_force a) (opt_facet a) (opt_map_width a) (opt_map_height a)
          (opt_default_land a) (opt_default_z a)
          (fs(''art.mul'' \<mapsto> [], ''artidx.mul'' \<mapsto> index_bytes (nat (opt_artidx_entries a)),
              ''tiledata.mul'' \<mapsto> tiledata_bytes, ''hues.mul'' \<mapsto> hues_bytes (opt_hue_groups a),
              ''radarcol.mul'' \<mapsto> radarcol_bytes)))
       (\<lambda>fs. (Inr 0, fs))"
  using assms
  by (auto simp: main_def make_art_mul_eq make_artidx_mul_write make_tiledata_mul_write
      make_hues_mul_write make_radarcol_mul_write write_file_def)


lemma main_invalid_map_params:
  assumes "\<not> map_params_ok (opt_map_width a) (opt_map_height a) (opt_facet a)
             (opt_default_land a) (opt_default_z a)"
    and "opt_force a \<or> (fs ''art.mul'' = None \<and> fs ''artidx.mul'' = None
      \<and> fs ''tiledata.mul'' = None \<and> fs ''hues.mul'' = None \<and> fs ''radarcol.mul'' = None)"
  shows "\<exists>e. is_validation_error e \<and>
     main a fs =
       (Inl e, fs(''art.mul'' \<mapsto> [], ''artidx.mul'' \<mapsto> index_bytes (nat (opt_artidx_entries a)),
              ''tiledata.mul'' \<mapsto> tiledata_bytes, ''hues.mul'' \<mapsto> hues_bytes (opt_hue_groups a),
              ''radarcol.mul'' \<mapsto> radarcol_bytes))"
proof -
  define fs5 where "fs5 = fs(''art.mul'' \<mapsto> [],
      ''artidx.mul'' \<mapsto> index_bytes (nat (opt_artidx_entries a)),
      ''tiledata.mul'' \<mapsto> tiledata_bytes, ''hues.mul'' \<mapsto> hues_bytes (opt_hue_groups a),
      ''radarcol.mul'' \<mapsto> radarcol_bytes)"
  obtain e where e: "is_validation_error e"
    "make_map_and_statics (opt_force a) (opt_facet a) (opt_map_width a) (opt_map_height a)
          (opt_default_land a) (opt_default_z a) fs5 = (Inl e, fs5)"
    using make_map_and_statics_invalid [OF assms(1)] by blast
  have "main a fs = (Inl e, fs5)"
    unfolding main_first_five [OF assms(2)] fs5_def [symmetric] e(2) by simp
  then show ?thesis using e(1) unfolding fs5_def by blast
qed

lemma make_map_and_statics_staidx_exists:
  assumes "map_params_ok w h facet t z" and "\<not> force" and "fs (map_path facet) = None"
    and "fs (staidx_path facet) \<noteq> None"
  shows "make_map_and_statics force facet w h t z fs =
     (Inl (DestinationExists (staidx_path facet)),
      fs(map_path facet \<mapsto> map_bytes (nat (w div 8 * (h div 8))) t z))"
proof -
  have "make_map_and_statics force facet w h t z fs =
     and_then (write_file (map_path facet) (map_bytes (nat (w div 8 * (h div 8))) t z) force fs)
       (\<lambda>fs1. and_then (write_file (staidx_path facet) (index_bytes (nat (w div 8 * (h div 8))))
                         force fs1)
       (\<lambda>fs2. write_file (statics_path facet) [] force fs2))"
    using assms(1) unfolding map_params_ok_def by (intro make_map_and_statics_valid) simp_all
  then show ?thesis using assms(2-4) by (auto simp: write_file_def paths_distinct)
qed

text \<open>
  Claim C4, as amended. Inside \<open>make_map_and_statics\<close> the dimension, facet, tile id and
  altitude checks run before any of its three files is written: when one of them fails the
  call returns that error and writes nothing. The check for an existing destination is made
  for each artifact on its own, immediately before that artifact is written: it fails with
  \<open>DestinationExists\<close> and leaves the files as they are, but what was written before stays,
  so that an existing static index stops the map writer after the map file has been written.
  The pipeline does not validate first: \<open>main\<close> writes the art, art index, tiledata, hues
  and radar-colour files before the map parameters are checked, so with an invalid map
  parameter (and these five destinations free or to be overwritten) it fails with the
  validation error after having written the five files.
\<close>

theorem validation_before_each_artifact:
  "(\<not> map_params_ok w h facet t z \<longrightarrow>
      (\<exists>e. is_validation_error e \<and> make_map_and_statics force facet w h t z fs = (Inl e, fs)))
   \<and> (fs path \<noteq> None \<and> \<not> force \<longrightarrow>
        write_file path data force fs = (Inl (DestinationExists path), fs)
        \<and> write_streamed path writer_fn force fs = (Inl (DestinationExists path), fs))
   \<and> (map_params_ok w h facet t z \<and> \<not> force \<and> fs (map_path facet) = None
        \<and> fs (staidx_path facet) \<noteq> None \<longrightarrow>
        make_map_and_statics force facet w h t z fs =
          (Inl (DestinationExists (staidx_path facet)),
           fs(map_path facet \<mapsto> map_bytes (nat (w div 8 * (h div 8))) t z)))
   \<and> (\<not> map_params_ok (opt_map_width a) (opt_map_height a) (opt_facet a)
             (opt_default_land a) (opt_default_z a)
        \<and> (opt_force a \<or> (fs ''art.mul'' = None \<and> fs ''artidx.mul'' = None
             \<and> fs ''tiledata.mul'' = None \<and> fs ''hues.mul'' = None
             \<and> fs ''radarcol.mul'' = None)) \<longrightarrow>
        (\<exists>e. is_validation_error e \<and>
           main a fs =
             (Inl e, fs(''art.mul'' \<mapsto> [],
                        ''artidx.mul'' \<mapsto> index_bytes (nat (opt_artidx_entries a)),
                        ''tiledata.mul'' \<mapsto> tiledata_bytes,
                        ''hues.mul'' \<mapsto> hues_bytes (opt_hue_groups a),
                        ''radarcol.mul'' \<mapsto> radarcol_bytes))))"
proof (intro conjI impI)
  assume "\<not> map_params_ok w h facet t z"
  then show "\<exists>e. is_validation_error e \<and> make_map_and_statics force facet w h t z fs = (Inl e, fs)"
    by (rule make_map_and_statics_invalid)
next
  assume "fs path \<noteq> None \<and> \<not> force"
  then show "write_file path data force fs = (Inl (DestinationExists path), fs)"
    by (simp add: write_file_def)
next
  assume "fs path \<noteq> None \<and> \<not> force"
  then show "write_streamed path writer_fn force fs = (Inl (DestinationExists path), fs)"
    by (simp add: write_streamed_def)
next
  assume "map_params_ok w h facet t z \<and> \<not> force \<and> fs (map_path facet) = None
        \<and> fs (staidx_path facet) \<noteq> None"
  then show "make_map_and_statics force facet w h t z fs =
          (Inl (DestinationExists (staidx_path facet)),
           fs(map_path facet \<mapsto> map_bytes (nat (w div 8 * (h div 8))) t z))"
    by (intro make_map_and_statics_staidx_exists) simp_all
next
  assume "\<not> map_params_ok (opt_map_width a) (opt_map_height a) (opt_facet a)
             (opt_default_land a) (opt_default_z a)
        \<and> (opt_force a \<or> (fs ''art.mul'' = None \<and> fs ''artidx.mul'' = None
             \<and> fs ''tiledata.mul'' = None \<and> fs ''hues.mul'' = None
             \<and> fs ''radarcol.mul'' = None))"
  then show "\<exists>e. is_validation_error e \<and>
           main a fs =
             (Inl e, fs(''art.mul'' \<mapsto> [],
                        ''artidx.mul'' \<mapsto> index_bytes (nat (opt_artidx_entries a)),
                        ''tiledata.mul'' \<mapsto> tiledata_bytes,
                        ''hues.mul'' \<mapsto> hues_bytes (opt_hue_groups a),
                        ''radarcol.mul'' \<mapsto> radarcol_bytes))"
    by (intro main_invalid_map_params) simp_all
qed

theorem validation_before_each_artifact_witness:
  "(\<exists>e. is_validation_error e \<and>
      make_map_and_statics False 0 7 8 0 0 Map.empty = (Inl e, Map.empty))
   \<and> write_file ''art.mul'' [] False [''art.mul'' \<mapsto> [1]] =
        (Inl (DestinationExists ''art.mul''), [''art.mul'' \<mapsto> [1]])
   \<and> make_map_and_statics False 0 8 8 0 0 [''staidx0.mul'' \<mapsto> []] =
        (Inl (DestinationExists ''staidx0.mul''),
         [''staidx0.mul'' \<mapsto> [], ''map0.mul'' \<mapsto> map_bytes 1 0 0])
   \<and> (\<exists>e. is_validation_error e \<and>
         main (argparse_defaults\<lparr>opt_map_width := 7\<rparr>) Map.empty =
           (Inl e, [''art.mul'' \<mapsto> [], ''artidx.mul'' \<mapsto> index_bytes 81920,
                    ''tiledata.mul'' \<mapsto> tiledata_bytes, ''hues.mul'' \<mapsto> hues_bytes 375,
                    ''radarcol.mul'' \<mapsto> radarcol_bytes]))"
proof -
  have 1: "\<exists>e. is_validation_error e \<and>
      make_map_and_statics False 0 7 8 0 0 Map.empty = (Inl e, Map.empty)"
    using validation_before_each_artifact [of 7 8 0 0 0 False Map.empty]
    by (simp add: map_params_ok_def)
  have 2: "write_file ''art.mul'' [] False [''art.mul'' \<mapsto> [1]] =
        (Inl (DestinationExists ''art.mul''), [''art.mul'' \<mapsto> [1]])"
    using validation_before_each_artifact
      [of 8 8 0 0 0 False "[''art.mul'' \<mapsto> [1]]" "''art.mul''" "[]"]
    by simp
  have 3: "make_map_and_statics False 0 8 8 0 0 [''staidx0.mul'' \<mapsto> []] =
        (Inl (DestinationExists ''staidx0.mul''),
         [''staidx0.mul'' \<mapsto> [], ''map0.mul'' \<mapsto> map_bytes 1 0 0])"
    using validation_before_each_artifact [of 8 8 0 0 0 False "[''staidx0.mul'' \<mapsto> []]"]
    by (simp add: map_params_ok_def map_path_def staidx_path_def str_int_0)
  have 4: "\<exists>e. is_validation_error e \<and>
         main (argparse_defaults\<lparr>opt_map_width := 7\<rparr>) Map.empty =
           (Inl e, [''art.mul'' \<mapsto> [], ''artidx.mul'' \<mapsto> index_bytes 81920,
                    ''tiledata.mul'' \<mapsto> tiledata_bytes, ''hues.mul'' \<mapsto> hues_bytes 375,
                    ''radarcol.mul'' \<mapsto> radarcol_bytes])"
    using validation_before_each_artifact
      [of 8 8 0 0 0 False Map.empty _ _ _ "argparse_defaults\<lparr>opt_map_width := 7\<rparr>"]
    by (simp add: map_params_ok_def argparse_defaults_def)
  show ?thesis using 1 2 3 4 by blast
qed

text \<open>The claim as stated has all validation pass before any byte is emitted. With the
  default command line and a map width of 7 the pipeline fails with \<open>InvalidDimension\<close>, and
  the art index file then holds its 983040 bytes.\<close>

theorem validation_not_hoisted_counterexample:
  "fst (main (argparse_defaults\<lparr>opt_map_width := 7\<rparr>) Map.empty) =
     Inl (InvalidDimension ''map-width'' NotMultipleOf8)
   \<and> map_option length (snd (main (argparse_defaults\<lparr>opt_map_width := 7\<rparr>) Map.empty)
        ''artidx.mul'') = Some 983040"
proof -
  have "opt_force (argparse_defaults\<lparr>opt_map_width := 7\<rparr>) \<or>
      (Map.empty ''art.mul'' = (None :: byte list option) \<and> Map.empty ''artidx.mul'' = (None :: byte list option)
      \<and> Map.empty ''tiledata.mul'' = (None :: byte list option)
      \<and> Map.empty ''hues.mul'' = (None :: byte list option)
      \<and> Map.empty ''radarcol.mul'' = (None :: byte list option))"
    by simp
  then have m: "main (argparse_defaults\<lparr>opt_map_width := 7\<rparr>) Map.empty =
      (Inl (InvalidDimension ''map-width'' NotMultipleOf8),
       [''art.mul'' \<mapsto> [], ''artidx.mul'' \<mapsto> index_bytes 81920,
        ''tiledata.mul'' \<mapsto> tiledata_bytes, ''hues.mul'' \<mapsto> hues_bytes 375,
        ''radarcol.mul'' \<mapsto> radarcol_bytes])"
    using make_map_and_statics_checks [of 7 False 0 256 0 0]
    by (simp add: main_first_five argparse_defaults_def)
  show ?thesis unfolding m by (simp add: length_index_bytes)
qed

end
